theory Spec2Isabelle
  imports Complex_Main
begin

section \<open>Values of the program\<close>

text \<open>
  A decoded JSON document, as Python's \<open>json.loads\<close> returns it: \<open>None\<close>, \<open>bool\<close>,
  \<open>int\<close>, \<open>float\<close>, \<open>str\<close>, \<open>list\<close> and \<open>dict\<close>. A \<open>dict\<close> is kept as an association list
  in insertion order (its keys are strings). A float is kept by the text of its literal: the
  code under study never computes with numbers, it only tests membership in them and uses
  them as dictionary keys. A Python \<open>str\<close> is a list of code points below 256.
\<close>

datatype json =
    JNull
  | JBool bool
  | JInt int
  | JFloat string
  | JStr string
  | JArr "json list"
  | JObj "(string \<times> json) list"

text \<open>The exceptions the modelled code can raise.\<close>

datatype py_exn =
    TypeError
  | AttributeError
  | IndexError
  | KeyError
  | UnicodeDecodeError
  | JSONDecodeError
  | ValueError
  | RecursionError
  | OSError
  | OtherException

subsection \<open>Strings\<close>

text \<open>\<open>str.isspace\<close> on one code point below 256, as \<open>str.strip()\<close> uses it.\<close>

definition py_isspace :: "char \<Rightarrow> bool" where
  "py_isspace c \<longleftrightarrow> c \<in> set [CHR 0x09, CHR 0x0A, CHR 0x0B, CHR 0x0C, CHR 0x0D,
     CHR 0x1C, CHR 0x1D, CHR 0x1E, CHR 0x1F, CHR 0x20, CHR 0x85, CHR 0xA0]"

text \<open>\<open>s.strip()\<close>\<close>

definition strip :: "string \<Rightarrow> string" where
  "strip s = rev (dropWhile py_isspace (rev (dropWhile py_isspace s)))"

text \<open>\<open>s.startswith(p)\<close>\<close>

definition startswith :: "string \<Rightarrow> string \<Rightarrow> bool" where
  "startswith s p \<longleftrightarrow> take (length p) s = p"

text \<open>\<open>p in s\<close> for two strings: \<open>p\<close> occurs in \<open>s\<close> as a contiguous substring.\<close>

fun str_contains :: "string \<Rightarrow> string \<Rightarrow> bool" where
  "str_contains [] p = (p = [])"
| "str_contains (c # cs) p = (startswith (c # cs) p \<or> str_contains cs p)"

text \<open>
  \<open>split_first sep s\<close> cuts \<open>s\<close> at the leftmost occurrence of the non-empty separator
  \<open>sep\<close>: the text before it and the text after it (\<open>str.partition\<close>). Every use of
  \<open>str.split\<close> in the code indexes the result at 0 or 1, which these three functions give:
  \<^item> \<open>s.split(sep, 1)[1]\<close> is the text after the leftmost separator, IndexError without one;
  \<^item> \<open>s.split(sep)[0]\<close> is the text before the leftmost separator, all of \<open>s\<close> without one;
  \<^item> \<open>s.split(sep)[1]\<close> is the text between the leftmost separator and the one after it
    (or the end), IndexError when \<open>s\<close> has no separator.
\<close>

fun split_first :: "string \<Rightarrow> string \<Rightarrow> (string \<times> string) option" where
  "split_first sep [] = None"
| "split_first sep (c # cs) =
     (if startswith (c # cs) sep then Some ([], drop (length sep) (c # cs))
      else (case split_first sep cs of
              None \<Rightarrow> None
            | Some (b, a) \<Rightarrow> Some (c # b, a)))"

definition split_max1_item1 :: "string \<Rightarrow> string \<Rightarrow> py_exn + string" where
  "split_max1_item1 sep s =
     (case split_first sep s of None \<Rightarrow> Inl IndexError | Some (b, a) \<Rightarrow> Inr a)"

definition split_item0 :: "string \<Rightarrow> string \<Rightarrow> string" where
  "split_item0 sep s = (case split_first sep s of None \<Rightarrow> s | Some (b, a) \<Rightarrow> b)"

definition split_item1 :: "string \<Rightarrow> string \<Rightarrow> py_exn + string" where
  "split_item1 sep s =
     (case split_first sep s of
        None \<Rightarrow> Inl IndexError
      | Some (b, a) \<Rightarrow> Inr (split_item0 sep a))"

subsection \<open>Operators on decoded JSON\<close>

text \<open>
  \<open>key in v\<close> for a string \<open>key\<close>: key membership in a dict, element membership in a list,
  substring test in a string; TypeError on \<open>None\<close>, a bool and a number (not iterable).
\<close>

fun py_in :: "string \<Rightarrow> json \<Rightarrow> py_exn + bool" where
  "py_in key (JObj kvs) = Inr (key \<in> set (map fst kvs))"
| "py_in key (JArr xs) = Inr (JStr key \<in> set xs)"
| "py_in key (JStr s) = Inr (str_contains s key)"
| "py_in key JNull = Inl TypeError"
| "py_in key (JBool b) = Inl TypeError"
| "py_in key (JInt i) = Inl TypeError"
| "py_in key (JFloat f) = Inl TypeError"

text \<open>
  \<open>v[key]\<close> for a string \<open>key\<close>: the value of a dict (KeyError without the key);
  TypeError on a list and on a string (their indices must be integers) and on the rest.
\<close>

fun py_getitem :: "json \<Rightarrow> string \<Rightarrow> py_exn + json" where
  "py_getitem (JObj kvs) key =
     (case map_of kvs key of Some v \<Rightarrow> Inr v | None \<Rightarrow> Inl KeyError)"
| "py_getitem v key = Inl TypeError"

text \<open>
  \<open>v.get(key)\<close>: the value of a dict or \<open>None\<close>; AttributeError on everything that
  is not a dict.
\<close>

fun py_get :: "json \<Rightarrow> string \<Rightarrow> py_exn + json" where
  "py_get (JObj kvs) key = Inr (case map_of kvs key of Some v \<Rightarrow> v | None \<Rightarrow> JNull)"
| "py_get v key = Inl AttributeError"

text \<open>\<open>v.get(key, default)\<close>\<close>

fun py_get_default :: "json \<Rightarrow> string \<Rightarrow> json \<Rightarrow> py_exn + json" where
  "py_get_default (JObj kvs) key d = Inr (case map_of kvs key of Some v \<Rightarrow> v | None \<Rightarrow> d)"
| "py_get_default v key d = Inl AttributeError"

section \<open>The connection\<close>

text \<open>
  The dictionary \<open>connect_to_sse_endpoint\<close> returns, with the objects it shares between
  threads held by value: \<open>queue.Queue\<close> is a list (\<open>put\<close> appends, \<open>get\<close> takes the head),
  \<open>pending_responses\<close> maps a request id to the queue of its caller, \<open>stop_event\<close> is its
  flag, \<open>connection_open\<close> is False once \<open>close()\<close> was called on the HTTP connection, and
  \<open>thread\<close> is the state of the reader thread.
\<close>

datatype thread_state = Running | Finished | Crashed py_exn

record sse_connection =
  session_id :: string
  message_endpoint :: string
  server_url :: string
  auth_header :: string
  connection_open :: bool
  stop_event :: bool
  thread :: thread_state
  reverse_queue :: "json list"
  pending_responses :: "string \<rightharpoonup> json list"

section \<open>The stream reader\<close>

text \<open>
  What one \<open>response.readline()\<close> gives: a line of bytes that decodes as UTF-8, a line of
  bytes that does not (with the text that \<open>errors='ignore'\<close> leaves of it), or an exception
  of the socket (a timeout, a reset). At the end of the stream \<open>readline\<close> returns the empty
  bytes: \<open>Line []\<close>.
\<close>

datatype read_result = Line string | BadUtf8 string | ReadRaises

text \<open>The read of one line of the stream, with the newline that ends it.\<close>

abbreviation wire_line :: "string \<Rightarrow> read_result" where
  "wire_line s \<equiv> Line (s @ [CHR 0x0A])"

text \<open>
  \<open>request_id in pending_responses\<close>: the keys are the strings \<open>str(uuid.uuid4())\<close>, so only
  an equal string is found; a list and a dict are unhashable, TypeError.
\<close>

fun pending_lookup :: "(string \<rightharpoonup> json list) \<Rightarrow> json \<Rightarrow> py_exn + string option" where
  "pending_lookup p (JStr s) = Inr (if s \<in> dom p then Some s else None)"
| "pending_lookup p (JArr xs) = Inl TypeError"
| "pending_lookup p (JObj kvs) = Inl TypeError"
| "pending_lookup p v = Inr None"

text \<open>
  The routing of one decoded payload (the body of the inner \<open>try\<close> of \<open>sse_reader_thread\<close>
  after \<open>json.loads\<close>; the same in \<open>sse_reader_thread_function\<close> of the demo script).
\<close>

definition route_message :: "sse_connection \<Rightarrow> json \<Rightarrow> py_exn + sse_connection" where
  "route_message c json_data =
     (case py_in ''reverse'' json_data of
        Inl e \<Rightarrow> Inl e
      | Inr True \<Rightarrow> Inr (c\<lparr>reverse_queue := reverse_queue c @ [json_data]\<rparr>)
      | Inr False \<Rightarrow>
          (case py_in ''id'' json_data of
             Inl e \<Rightarrow> Inl e
           | Inr False \<Rightarrow> Inr c
           | Inr True \<Rightarrow>
               (case py_getitem json_data ''id'' of
                  Inl e \<Rightarrow> Inl e
                | Inr request_id \<Rightarrow>
                    (case pending_lookup (pending_responses c) request_id of
                       Inl e \<Rightarrow> Inl e
                     | Inr None \<Rightarrow> Inr c
                     | Inr (Some k) \<Rightarrow>
                         Inr (c\<lparr>pending_responses := (pending_responses c)
                                 (k \<mapsto> the (pending_responses c k) @ [json_data])\<rparr>)))))"

text \<open>
  The handling of one decoded, non-empty line. The decoder \<open>json.loads\<close> of the standard
  library is the parameter \<open>loads\<close>: it returns the value or raises. Only its
  JSONDecodeError is caught here; a RecursionError (nesting too deep) or a ValueError (an
  integer literal beyond the digit limit) leaves the loop like every other exception.
\<close>

definition handle_line ::
  "(string \<Rightarrow> py_exn + json) \<Rightarrow> sse_connection \<Rightarrow> string \<Rightarrow> py_exn + sse_connection" where
  "handle_line loads c line =
     (let line_str = strip line in
      if startswith line_str '':'' then Inr c
      else if startswith line_str ''data:'' then
        (case split_max1_item1 '':'' line_str of
           Inl e \<Rightarrow> Inl e
         | Inr rest \<Rightarrow>
             (case loads (strip rest) of
                Inl e \<Rightarrow> if e = JSONDecodeError then Inr c else Inl e
              | Inr json_data \<Rightarrow> route_message c json_data))
      else Inr c)"

text \<open>
  One turn of the \<open>while not stop_event.is_set()\<close> loop of the reader thread, given what
  \<open>readline\<close> returns in it; the line is decoded with \<open>errors='ignore'\<close>. An exception
  leaves the loop through the outer \<open>except\<close> and ends the thread; so do the end of the
  stream and the stop flag. A thread that has ended reads nothing more.
\<close>

definition the_text :: "read_result \<Rightarrow> py_exn + string" where
  "the_text r = (case r of Line s \<Rightarrow> Inr s | BadUtf8 s \<Rightarrow> Inr s | ReadRaises \<Rightarrow> Inl OSError)"

text \<open>\<open>not line\<close> on the bytes read: only the end of the stream gives empty bytes.\<close>

definition at_eof :: "read_result \<Rightarrow> bool" where
  "at_eof r \<longleftrightarrow> r = Line []"

definition reader_step ::
  "(string \<Rightarrow> py_exn + json) \<Rightarrow> sse_connection \<Rightarrow> read_result \<Rightarrow> sse_connection" where
  "reader_step loads c r =
     (if thread c \<noteq> Running then c
      else if stop_event c then c\<lparr>thread := Finished\<rparr>
      else (case the_text r of
              Inl e \<Rightarrow> c\<lparr>thread := Crashed e\<rparr>
            | Inr line \<Rightarrow>
                if at_eof r then c\<lparr>thread := Finished\<rparr>
                else (case handle_line loads c line of
                        Inl e \<Rightarrow> c\<lparr>thread := Crashed e\<rparr>
                      | Inr c' \<Rightarrow> c')))"

text \<open>The reader thread over the reads it makes, in order.\<close>

definition sse_reader_thread ::
  "(string \<Rightarrow> py_exn + json) \<Rightarrow> sse_connection \<Rightarrow> read_result list \<Rightarrow> sse_connection" where
  "sse_reader_thread loads c rs = foldl (reader_step loads) c rs"

section \<open>Opening the stream\<close>

text \<open>
  What \<open>conn.request('GET', ...)\<close> and \<open>conn.getresponse()\<close> give: an exception, or a
  response with its status and the reads its body will answer, in order.
\<close>

datatype get_result = GetRaises | GetResponse nat "read_result list"

text \<open>\<open>response.readline()\<close> on the reads that are left: past the end it returns empty bytes.\<close>

definition readline :: "read_result list \<Rightarrow> read_result \<times> read_result list" where
  "readline rs = (case rs of [] \<Rightarrow> (Line [], []) | r # rest \<Rightarrow> (r, rest))"

text \<open>\<open>.decode('utf-8')\<close> of what was read, strict.\<close>

definition decode_strict :: "read_result \<Rightarrow> py_exn + string" where
  "decode_strict r =
     (case r of Line s \<Rightarrow> Inr s | BadUtf8 s \<Rightarrow> Inl UnicodeDecodeError | ReadRaises \<Rightarrow> Inl OSError)"

text \<open>\<open>not x\<close> is False for an optional string: it is neither \<open>None\<close> nor empty.\<close>

definition truthy :: "string option \<Rightarrow> bool" where
  "truthy x \<longleftrightarrow> (case x of None \<Rightarrow> False | Some s \<Rightarrow> s \<noteq> [])"

text \<open>
  The loop \<open>for _ in range(10)\<close> of \<open>connect_to_sse_endpoint\<close>, with the number of turns
  left, the variables \<open>event_type\<close> and \<open>message_endpoint\<close> (here \<open>msg_endpoint\<close>), and the
  reads left. It returns
  \<open>message_endpoint\<close>, \<open>session_id\<close> and the reads it has not made.
\<close>

fun handshake ::
  "nat \<Rightarrow> string option \<Rightarrow> string option \<Rightarrow> read_result list \<Rightarrow>
   py_exn + (string option \<times> string option \<times> read_result list)" where
  "handshake 0 event_type msg_endpoint rs = Inr (msg_endpoint, None, rs)"
| "handshake (Suc n) event_type msg_endpoint rs =
     (case decode_strict (fst (readline rs)) of
        Inl e \<Rightarrow> Inl e
      | Inr raw \<Rightarrow>
          (let line = strip raw; rest = snd (readline rs) in
           if startswith line ''event:'' then
             (case split_max1_item1 '':'' line of
                Inl e \<Rightarrow> Inl e
              | Inr v \<Rightarrow> handshake n (Some (strip v)) msg_endpoint rest)
           else if startswith line ''data:'' then
             (case split_max1_item1 '':'' line of
                Inl e \<Rightarrow> Inl e
              | Inr v \<Rightarrow>
                  (let data = strip v in
                   if event_type = Some ''endpoint'' then
                     (if str_contains data ''session_id='' then
                        (case split_item1 ''session_id='' data of
                           Inl e \<Rightarrow> Inl e
                         | Inr seg \<Rightarrow> Inr (Some data, Some (split_item0 ''&'' seg), rest))
                      else Inr (Some data, None, rest))
                   else handshake n event_type msg_endpoint rest))
           else if line = [] then
             (if truthy msg_endpoint then Inr (msg_endpoint, None, rest)
              else handshake n event_type msg_endpoint rest)
           else handshake n event_type msg_endpoint rest))"

text \<open>
  The result of \<open>connect_to_sse_endpoint\<close>: the dictionary it returns (\<open>None\<close> on failure),
  whether it called \<open>conn.close()\<close>, and the reads left to the reader thread it started.
  \<open>new_connection\<close> is the dictionary of a successful handshake, the reader thread started.
\<close>

record connect_result =
  returned :: "sse_connection option"
  closed :: bool
  unread :: "read_result list"

definition new_connection :: "string \<Rightarrow> string \<Rightarrow> string \<Rightarrow> string \<Rightarrow> sse_connection" where
  "new_connection sid me url auth =
     \<lparr>session_id = sid, message_endpoint = me, server_url = url, auth_header = auth,
      connection_open = True, stop_event = False, thread = Running, reverse_queue = [],
      pending_responses = Map.empty\<rparr>"

definition connect_to_sse_endpoint :: "get_result \<Rightarrow> string \<Rightarrow> string \<Rightarrow> connect_result" where
  "connect_to_sse_endpoint got url auth =
     (case got of
        GetRaises \<Rightarrow> \<lparr>returned = None, closed = False, unread = []\<rparr>
      | GetResponse status stream \<Rightarrow>
          if status \<noteq> 200 then \<lparr>returned = None, closed = True, unread = stream\<rparr>
          else
            (case handshake 10 None None stream of
               Inl e \<Rightarrow> \<lparr>returned = None, closed = False, unread = stream\<rparr>
             | Inr (me, sid, rest) \<Rightarrow>
                 if \<not> truthy me \<or> \<not> truthy sid
                 then \<lparr>returned = None, closed = True, unread = rest\<rparr>
                 else \<lparr>returned = Some (new_connection (the sid) (the me) url auth),
                       closed = False, unread = rest\<rparr>))"

section \<open>Sending\<close>

text \<open>
  A POST as the code hands it to \<open>http.client\<close>: the server whose host and scheme
  \<open>urlparse\<close> takes, the path, the headers and the body.
\<close>

record http_request =
  req_server :: string
  req_path :: string
  req_headers :: "(string \<times> string) list"
  req_body :: string

text \<open>What the network answers to a POST: an exception, or a response with its status.\<close>

datatype post_result = PostRaises | PostStatus nat

text \<open>
  What a call does besides returning, in order: \<open>Wait\<close> is the call of
  \<open>response_queue.get\<close>, \<open>Log\<close> a message of \<open>logger.error\<close>.
\<close>

datatype log_msg = PostFailed nat | TimeoutWaiting string | FailedToSend | ListenerError

datatype effect =
    Register string
  | Post http_request
  | Wait string
  | Remove string
  | Log log_msg

text \<open>\<open>str(n)\<close> for a length.\<close>

definition digit :: "nat \<Rightarrow> char" where
  "digit d = ''0123456789'' ! d"

function str_of_nat :: "nat \<Rightarrow> string" where
  "str_of_nat n = (if n < 10 then [digit n] else str_of_nat (n div 10) @ [digit (n mod 10)])"
  by pat_completeness auto
termination
  by (relation "measure id") auto

declare str_of_nat.simps [simp del]

definition post_request :: "sse_connection \<Rightarrow> string \<Rightarrow> http_request" where
  "post_request c request_body =
     \<lparr>req_server = server_url c,
      req_path = message_endpoint c,
      req_headers =
        [(''Content-Type'', ''application/json''),
         (''Content-Length'', str_of_nat (length request_body)),
         (''Authorization'', auth_header c)],
      req_body = request_body\<rparr>"

text \<open>
  \<open>send_tool_reply\<close>. The encoder \<open>json.dumps\<close> of the standard library is the parameter
  \<open>dumps\<close>, the network is \<open>post\<close>. It returns its result, the connection as it leaves it,
  and what it did.
\<close>

definition reply_request :: "json \<Rightarrow> json \<Rightarrow> json" where
  "reply_request call_id result =
     JObj [(''jsonrpc'', JStr ''2.0''),
           (''id'', call_id),
           (''method'', JStr ''tools/reply''),
           (''params'', JObj [(''result'', result)])]"

definition send_tool_reply ::
  "(json \<Rightarrow> string) \<Rightarrow> (http_request \<Rightarrow> post_result) \<Rightarrow> sse_connection \<Rightarrow> json \<Rightarrow> json \<Rightarrow>
   bool \<times> sse_connection \<times> effect list" where
  "send_tool_reply dumps post c call_id result =
     (let req = post_request c (dumps (reply_request call_id result)) in
      case post req of
        PostRaises \<Rightarrow> (False, c, [Post req, Log FailedToSend])
      | PostStatus status \<Rightarrow>
          if status \<noteq> 202 then (False, c, [Post req, Log (PostFailed status)])
          else (True, c, [Post req]))"

text \<open>
  \<open>send_jsonrpc_request\<close>. \<open>request_id\<close> is what \<open>str(uuid.uuid4())\<close> gave. The reader
  thread runs beside the caller: \<open>during_post\<close> are the reads it handles between the
  registration and the answer to the POST, \<open>during_wait\<close> those it handles while the caller
  blocks in \<open>response_queue.get(timeout=timeout_seconds)\<close>: up to the deadline, or all that
  follow when \<open>timeout_seconds\<close> is \<open>None\<close>. \<open>queue.get\<close> raises ValueError on a negative
  timeout before it looks at the queue; with a deadline it gives the first element put in
  the queue or raises \<open>queue.Empty\<close> on an empty queue; without one it blocks until an
  element is there, for ever when none comes. A call that blocks for ever does not return:
  it leaves its entry in the table.
\<close>

datatype call_result = Returned "json option" | NeverReturns

definition jsonrpc_request :: "string \<Rightarrow> string \<Rightarrow> json \<Rightarrow> json" where
  "jsonrpc_request request_id method params =
     JObj [(''jsonrpc'', JStr ''2.0''),
           (''id'', JStr request_id),
           (''method'', JStr method),
           (''params'', params)]"

definition register_pending :: "sse_connection \<Rightarrow> string \<Rightarrow> sse_connection" where
  "register_pending c request_id =
     c\<lparr>pending_responses := (pending_responses c)(request_id \<mapsto> [])\<rparr>"

definition pop_pending :: "sse_connection \<Rightarrow> string \<Rightarrow> sse_connection" where
  "pop_pending c request_id =
     c\<lparr>pending_responses := (pending_responses c)(request_id := None)\<rparr>"

definition send_jsonrpc_request ::
  "(string \<Rightarrow> py_exn + json) \<Rightarrow> (json \<Rightarrow> string) \<Rightarrow> (http_request \<Rightarrow> post_result) \<Rightarrow>
   sse_connection \<Rightarrow> string \<Rightarrow> string \<Rightarrow> json \<Rightarrow> real option \<Rightarrow>
   read_result list \<Rightarrow> read_result list \<Rightarrow>
   call_result \<times> sse_connection \<times> effect list" where
  "send_jsonrpc_request loads dumps post c request_id method params timeout_seconds
     during_post during_wait =
     (let c1 = register_pending c request_id;
          req = post_request c1 (dumps (jsonrpc_request request_id method params));
          c2 = sse_reader_thread loads c1 during_post
      in case post req of
           PostRaises \<Rightarrow>
             (Returned None, pop_pending c2 request_id,
              [Register request_id, Post req, Remove request_id, Log FailedToSend])
         | PostStatus status \<Rightarrow>
             if status \<noteq> 202 then
               (Returned None, pop_pending c2 request_id,
                [Register request_id, Post req, Log (PostFailed status), Remove request_id])
             else
               (case timeout_seconds of
                  Some t \<Rightarrow>
                    if t < 0 then
                      (Returned None, pop_pending c2 request_id,
                       [Register request_id, Post req, Wait request_id, Remove request_id,
                        Log FailedToSend])
                    else
                      (let c3 = sse_reader_thread loads c2 during_wait in
                       case pending_responses c3 request_id of
                         Some (response # later) \<Rightarrow>
                           (Returned (Some response), pop_pending c3 request_id,
                            [Register request_id, Post req, Wait request_id,
                             Remove request_id])
                       | _ \<Rightarrow>
                           (Returned None, pop_pending c3 request_id,
                            [Register request_id, Post req, Wait request_id,
                             Log (TimeoutWaiting method), Remove request_id]))
                | None \<Rightarrow>
                    (let c3 = sse_reader_thread loads c2 during_wait in
                     case pending_responses c3 request_id of
                       Some (response # later) \<Rightarrow>
                         (Returned (Some response), pop_pending c3 request_id,
                          [Register request_id, Post req, Wait request_id, Remove request_id])
                     | _ \<Rightarrow>
                         (NeverReturns, c3,
                          [Register request_id, Post req, Wait request_id]))))"

section \<open>The dispatch loops\<close>

text \<open>A tool result with one text item.\<close>

definition text_result :: "string \<Rightarrow> bool \<Rightarrow> json" where
  "text_result t is_error =
     JObj [(''content'', JArr [JObj [(''type'', JStr ''text''), (''text'', JStr t)]]),
           (''isError'', JBool is_error)]"

text \<open>\<open>input_data.get("params", {}).get("arguments", {})\<close>\<close>

definition arguments_of :: "json \<Rightarrow> py_exn + json" where
  "arguments_of input_data =
     (case py_get_default input_data ''params'' (JObj []) of
        Inl e \<Rightarrow> Inl e
      | Inr params \<Rightarrow> py_get_default params ''arguments'' (JObj []))"

subsection \<open>The bridge: \<open>ReverseBlenderConnection\<close>\<close>

text \<open>
  What the bridge takes from outside the engine: \<open>send_command\<close> to the Blender add-on,
  the file of a screenshot read and base64-encoded, \<open>json.dumps(_, indent=2)\<close>, \<open>str()\<close>
  of a value and of an exception as f-strings print them, and the screenshot path the
  bridge makes from \<open>id(self)\<close>.
\<close>

record bridge_env =
  send_command :: "string \<Rightarrow> json \<Rightarrow> py_exn + json"
  read_base64 :: "string \<Rightarrow> py_exn + string"
  dumps_indent :: "json \<Rightarrow> string"
  str_of :: "json \<Rightarrow> string"
  str_of_exn :: "py_exn \<Rightarrow> string"
  screenshot_path :: string

text \<open>
  \<open>tool_name not in tool_mapping\<close>: the keys are the four tool names; a list and a dict
  are unhashable, TypeError.
\<close>

definition tool_names :: "string list" where
  "tool_names = [''blender_get_scene_info'', ''blender_get_object_info'',
                 ''blender_get_viewport_screenshot'', ''blender_execute_code'']"

fun known_tool :: "json \<Rightarrow> py_exn + string option" where
  "known_tool (JStr s) = Inr (if s \<in> set tool_names then Some s else None)"
| "known_tool (JArr xs) = Inl TypeError"
| "known_tool (JObj kvs) = Inl TypeError"
| "known_tool v = Inr None"

text \<open>
  The body of the \<open>try\<close> of \<open>_handle_tool_call\<close>. The dictionary \<open>tool_mapping\<close> is built
  first, with the three arguments it reads from \<open>input_data\<close>; then the name is looked up.
\<close>

definition handle_tool_call_body :: "bridge_env \<Rightarrow> json \<Rightarrow> json \<Rightarrow> py_exn + json" where
  "handle_tool_call_body env tool_name input_data =
     (case arguments_of input_data of
        Inl e \<Rightarrow> Inl e
      | Inr args \<Rightarrow>
     (case py_get args ''object_name'' of
        Inl e \<Rightarrow> Inl e
      | Inr object_name \<Rightarrow>
     (case py_get_default args ''max_size'' (JInt 800) of
        Inl e \<Rightarrow> Inl e
      | Inr max_size \<Rightarrow>
     (case py_get args ''code'' of
        Inl e \<Rightarrow> Inl e
      | Inr code \<Rightarrow>
     (case known_tool tool_name of
        Inl e \<Rightarrow> Inl e
      | Inr None \<Rightarrow> Inr (text_result (''Unknown tool: '' @ str_of env tool_name) True)
      | Inr (Some name) \<Rightarrow>
          (let (command_type, params) =
                 (if name = ''blender_get_scene_info'' then (''get_scene_info'', JObj [])
                  else if name = ''blender_get_object_info''
                    then (''get_object_info'', JObj [(''name'', object_name)])
                  else if name = ''blender_get_viewport_screenshot''
                    then (''get_viewport_screenshot'',
                          JObj [(''max_size'', max_size),
                                (''filepath'', JStr (screenshot_path env)),
                                (''format'', JStr ''png'')])
                  else (''execute_code'', JObj [(''code'', code)]))
           in case send_command env command_type params of
                Inl e \<Rightarrow> Inl e
              | Inr blender_result \<Rightarrow>
                  if name = ''blender_get_viewport_screenshot'' then
                    (case read_base64 env (screenshot_path env) of
                       Inl e \<Rightarrow>
                         Inr (text_result (''Error reading screenshot: '' @ str_of_exn env e) True)
                     | Inr image_data \<Rightarrow>
                         Inr (JObj [(''content'',
                                     JArr [JObj [(''type'', JStr ''image''),
                                                 (''data'', JStr image_data),
                                                 (''mimeType'', JStr ''image/png'')]]),
                                    (''isError'', JBool False)]))
                  else Inr (text_result (dumps_indent env blender_result) False)))))))"

text \<open>\<open>_handle_tool_call\<close>: every exception of the body becomes an error result.\<close>

definition handle_tool_call :: "bridge_env \<Rightarrow> json \<Rightarrow> json \<Rightarrow> json" where
  "handle_tool_call env tool_name input_data =
     (case handle_tool_call_body env tool_name input_data of
        Inl e \<Rightarrow> text_result (''Error: '' @ str_of_exn env e) True
      | Inr result \<Rightarrow> result)"

text \<open>
  One turn of the loop of \<open>_listen_for_reverse_calls\<close>: the message it took from the
  queue (\<open>None\<close> on \<open>queue.Empty\<close>), the connection after it, and what it did. An exception
  in the turn is logged and the loop goes on.
\<close>

definition listen_step ::
  "bridge_env \<Rightarrow> (json \<Rightarrow> string) \<Rightarrow> (http_request \<Rightarrow> post_result) \<Rightarrow> sse_connection \<Rightarrow>
   json option \<times> sse_connection \<times> effect list" where
  "listen_step env dumps post c =
     (case reverse_queue c of
        [] \<Rightarrow> (None, c, [])
      | msg # rest \<Rightarrow>
          (let c1 = c\<lparr>reverse_queue := rest\<rparr> in
           case msg of
             JObj kvs \<Rightarrow>
               (case map_of kvs ''reverse'' of
                  None \<Rightarrow> (Some msg, c1, [])
                | Some reverse_data \<Rightarrow>
                    (case py_get reverse_data ''tool'' of
                       Inl e \<Rightarrow> (Some msg, c1, [Log ListenerError])
                     | Inr tool_name \<Rightarrow>
                    (case py_get reverse_data ''call_id'' of
                       Inl e \<Rightarrow> (Some msg, c1, [Log ListenerError])
                     | Inr call_id \<Rightarrow>
                    (case py_get reverse_data ''input'' of
                       Inl e \<Rightarrow> (Some msg, c1, [Log ListenerError])
                     | Inr input_data \<Rightarrow>
                         (let result = handle_tool_call env tool_name input_data;
                              (ok, c2, effs) = send_tool_reply dumps post c1 call_id result
                          in (Some msg, c2, effs))))))
           | _ \<Rightarrow> (Some msg, c1, [])))"

subsection \<open>The demo script: \<open>main_worker\<close>\<close>

text \<open>\<open>handle_echo_request\<close>; \<open>fmt\<close> is \<open>str()\<close> of the message in the f-string.\<close>

definition handle_echo_request :: "(json \<Rightarrow> string) \<Rightarrow> json \<Rightarrow> py_exn + json" where
  "handle_echo_request fmt call_data =
     (case arguments_of call_data of
        Inl e \<Rightarrow> Inl e
      | Inr arguments \<Rightarrow>
          (case py_get_default arguments ''message'' (JStr ''(no message provided)'') of
             Inl e \<Rightarrow> Inl e
           | Inr message \<Rightarrow> Inr (text_result (''Echo: '' @ fmt message) False)))"

text \<open>
  One turn of the \<open>while True\<close> loop of \<open>main_worker\<close>. Only \<open>queue.Empty\<close> is caught in the
  loop: any other exception leaves it. The script passes the URL and the header of the
  connection to its \<open>send_tool_reply\<close>, which is the one above.
\<close>

definition main_worker_step ::
  "(json \<Rightarrow> string) \<Rightarrow> (json \<Rightarrow> string) \<Rightarrow> (http_request \<Rightarrow> post_result) \<Rightarrow> sse_connection \<Rightarrow>
   py_exn + (json option \<times> sse_connection \<times> effect list)" where
  "main_worker_step fmt dumps post c =
     (case reverse_queue c of
        [] \<Rightarrow> Inr (None, c, [])
      | msg # rest \<Rightarrow>
          (let c1 = c\<lparr>reverse_queue := rest\<rparr> in
           case msg of
             JObj kvs \<Rightarrow>
               (case map_of kvs ''reverse'' of
                  None \<Rightarrow> Inr (Some msg, c1, [])
                | Some reverse_data \<Rightarrow>
                    (case py_get reverse_data ''tool'' of
                       Inl e \<Rightarrow> Inl e
                     | Inr tool_name \<Rightarrow>
                    (case py_get reverse_data ''call_id'' of
                       Inl e \<Rightarrow> Inl e
                     | Inr call_id \<Rightarrow>
                    (case py_get reverse_data ''input'' of
                       Inl e \<Rightarrow> Inl e
                     | Inr input_data \<Rightarrow>
                         if tool_name = JStr ''demo_tool_python'' then
                           (case handle_echo_request fmt input_data of
                              Inl e \<Rightarrow> Inl e
                            | Inr result \<Rightarrow>
                                (let (ok, c2, effs) = send_tool_reply dumps post c1 call_id result
                                 in Inr (Some msg, c2, effs)))
                         else Inr (Some msg, c1, [])))))
           | _ \<Rightarrow> Inr (Some msg, c1, [])))"

subsection \<open>The reader and the bridge's loop side by side\<close>

text \<open>
  A schedule of the two threads: the reader thread handles a read, or the dispatch loop
  makes a turn. Running it gives the connection and the messages the loop took from the
  queue, in order.
\<close>

datatype action = Read read_result | Dequeue

fun sched_step ::
  "(string \<Rightarrow> py_exn + json) \<Rightarrow> bridge_env \<Rightarrow> (json \<Rightarrow> string) \<Rightarrow> (http_request \<Rightarrow> post_result) \<Rightarrow>
   sse_connection \<times> json list \<Rightarrow> action \<Rightarrow> sse_connection \<times> json list" where
  "sched_step loads env dumps post (c, got) (Read r) = (reader_step loads c r, got)"
| "sched_step loads env dumps post (c, got) Dequeue =
     (case listen_step env dumps post c of
        (None, c', effs) \<Rightarrow> (c', got)
      | (Some msg, c', effs) \<Rightarrow> (c', got @ [msg]))"

definition run_schedule ::
  "(string \<Rightarrow> py_exn + json) \<Rightarrow> bridge_env \<Rightarrow> (json \<Rightarrow> string) \<Rightarrow> (http_request \<Rightarrow> post_result) \<Rightarrow>
   sse_connection \<Rightarrow> action list \<Rightarrow> sse_connection \<times> json list" where
  "run_schedule loads env dumps post c acts = foldl (sched_step loads env dumps post) (c, []) acts"

definition reads_of :: "action list \<Rightarrow> read_result list" where
  "reads_of acts = concat (map (\<lambda>a. case a of Read r \<Rightarrow> [r] | Dequeue \<Rightarrow> []) acts)"

section \<open>Notions of the specification\<close>

text \<open>The effects that are a POST, and those that touch the correlation table.\<close>

definition is_post :: "effect \<Rightarrow> bool" where
  "is_post e = (case e of Post r \<Rightarrow> True | _ \<Rightarrow> False)"

definition touches_table :: "effect \<Rightarrow> bool" where
  "touches_table e =
     (case e of Register k \<Rightarrow> True | Wait k \<Rightarrow> True | Remove k \<Rightarrow> True | _ \<Rightarrow> False)"

text \<open>
  A read that carries a reply frame for a request id: a \<open>data:\<close> line whose payload
  decodes to an object without a \<open>reverse\<close> field and with that id as its \<open>id\<close>.
\<close>

definition reply_frame_for :: "(string \<Rightarrow> py_exn + json) \<Rightarrow> string \<Rightarrow> read_result \<Rightarrow> bool" where
  "reply_frame_for loads request_id r =
     (case r of
        ReadRaises \<Rightarrow> False
      | _ \<Rightarrow>
        (let line = strip (case r of Line s \<Rightarrow> s | BadUtf8 s \<Rightarrow> s) in
         startswith line ''data:'' \<and>
         (case loads (strip (drop 5 line)) of
            Inr (JObj kvs) \<Rightarrow>
              ''reverse'' \<notin> set (map fst kvs) \<and> map_of kvs ''id'' = Some (JStr request_id)
          | _ \<Rightarrow> False)))"

text \<open>
  The payload of a read that the reader puts on the reverse-call queue: that of a \<open>data:\<close>
  line that decodes and in which \<open>'reverse' in payload\<close> holds.
\<close>

definition reverse_frame :: "(string \<Rightarrow> py_exn + json) \<Rightarrow> read_result \<Rightarrow> json option" where
  "reverse_frame loads r =
     (case r of
        ReadRaises \<Rightarrow> None
      | _ \<Rightarrow>
        (let line = strip (case r of Line s \<Rightarrow> s | BadUtf8 s \<Rightarrow> s) in
         if startswith line ''data:'' then
           (case loads (strip (drop 5 line)) of
              Inl e \<Rightarrow> None
            | Inr j \<Rightarrow> if py_in ''reverse'' j = Inr True then Some j else None)
         else None))"

text \<open>
  The first \<open>n\<close> lines of a stream yield an endpoint event: one of them is a \<open>data:\<close> line,
  and the last \<open>event:\<close> line before it names the type \<open>endpoint\<close>.
\<close>

definition is_line :: "read_result \<Rightarrow> bool" where
  "is_line r = (case r of Line s \<Rightarrow> True | _ \<Rightarrow> False)"

definition line_text :: "read_result \<Rightarrow> string" where
  "line_text r = strip (case r of Line s \<Rightarrow> s | BadUtf8 s \<Rightarrow> s | ReadRaises \<Rightarrow> [])"

definition event_type_after :: "string option \<Rightarrow> string list \<Rightarrow> string option" where
  "event_type_after ev ls =
     foldl (\<lambda>ev l. if startswith l ''event:'' then Some (strip (drop 6 l)) else ev) ev ls"

definition yields_endpoint :: "nat \<Rightarrow> read_result list \<Rightarrow> bool" where
  "yields_endpoint n stream \<longleftrightarrow>
     (\<exists>j < min n (length stream).
        startswith (line_text (stream ! j)) ''data:'' \<and>
        event_type_after None (map line_text (take j stream)) = Some ''endpoint'')"

section \<open>Inputs of the examples\<close>

text \<open>
  \<open>json.loads\<close> on the texts that the examples below send: each of these JSON texts with
  the value it denotes. Every other text the examples use is not JSON: JSONDecodeError.
\<close>

definition example_loads :: "string \<Rightarrow> py_exn + json" where
  \<open>example_loads s =
     (if s = ''42'' then Inr (JInt 42)
      else if s = ''null'' then Inr JNull
      else if s = ''{"jsonrpc":"2.0","id":"r1","result":{"tools":[{"name":"remote"}]}}''
        then Inr (JObj [(''jsonrpc'', JStr ''2.0''), (''id'', JStr ''r1''),
                         (''result'', JObj [(''tools'', JArr [JObj [(''name'', JStr ''remote'')]])])])
      else if s = ''{"reverse":{"tool":"demo_tool","call_id":"abc123","input":{"message":"hi"}}}''
        then Inr (JObj [(''reverse'', JObj [(''tool'', JStr ''demo_tool''),
                                            (''call_id'', JStr ''abc123''),
                                            (''input'', JObj [(''message'', JStr ''hi'')])])])
      else if s = ''{"reverse":{"tool":"second_tool","call_id":"abc124","input":{}}}''
        then Inr (JObj [(''reverse'', JObj [(''tool'', JStr ''second_tool''),
                                            (''call_id'', JStr ''abc124''),
                                            (''input'', JObj [])])])
      else Inl JSONDecodeError)\<close>

text \<open>A connection as a handshake leaves it.\<close>

definition example_connection :: sse_connection where
  "example_connection =
     new_connection ''5e1f'' ''/messages/?session_id=5e1f'' ''http://127.0.0.1:31173/sse''
       ''Bearer token''"

text \<open>
  A bridge whose Blender add-on cannot be reached, and a schedule in which two reverse
  calls arrive, with a keep-alive between them, before the dispatch loop takes any.
\<close>

definition example_env :: bridge_env where
  "example_env =
     \<lparr>send_command = (\<lambda>command_type params. Inl OtherException),
      read_base64 = (\<lambda>path. Inl OSError),
      dumps_indent = (\<lambda>j. ''{}''),
      str_of = (\<lambda>j. case j of JStr s \<Rightarrow> s | _ \<Rightarrow> ''None''),
      str_of_exn = (\<lambda>e. ''Communication error with Blender''),
      screenshot_path = ''/tmp/blender_screenshot_reverse_1.png''\<rparr>"

definition example_schedule :: "action list" where
  \<open>example_schedule =
     [Read (wire_line ''data: {"reverse":{"tool":"demo_tool","call_id":"abc123","input":{"message":"hi"}}}''),
      Read (wire_line '': ping''),
      Read (wire_line ''data: {"reverse":{"tool":"second_tool","call_id":"abc124","input":{}}}''),
      Dequeue,
      Dequeue]\<close>

text \<open>
  A stream whose endpoint event comes after the tenth line: an event of another type, its
  data, the blank line that ends it and seven keep-alives come first.
\<close>

definition example_late_stream :: "read_result list" where
  "example_late_stream =
     [wire_line ''event: message'', wire_line ''data: hello'', wire_line [], wire_line '': ping'', wire_line '': ping'',
      wire_line '': ping'', wire_line '': ping'', wire_line '': ping'', wire_line '': ping'', wire_line '': ping'',
      wire_line ''event: endpoint'', wire_line ''data: /messages/?session_id=5e1f'']"

section \<open>Properties of the reader and of the correlation table\<close>

lemma post_request_register: "post_request (register_pending c k) b = post_request c b"
  by (simp add: post_request_def register_pending_def)

lemma dom_pop_pending: "dom (pending_responses (pop_pending c k)) = dom (pending_responses c) - {k}"
  by (auto simp: pop_pending_def)

lemma startswith_data: "startswith s ''data:'' \<Longrightarrow> split_max1_item1 '':'' s = Inr (drop 5 s)"
proof -
  assume "startswith s ''data:''"
  then have "take (length ''data:'') s = ''data:''" by (simp only: startswith_def)
  then have "s = ''data:'' @ drop (length ''data:'') s" by (metis append_take_drop_id)
  then obtain rest where s: "s = ''data:'' @ rest" by blast
  have "split_max1_item1 '':'' (''data:'' @ rest) = Inr rest"
    by (simp add: split_max1_item1_def startswith_def)
  moreover have "drop 5 (''data:'' @ rest) = rest" by simp
  ultimately show ?thesis unfolding s by simp
qed


lemma route_message_other:
  "route_message c j = Inr c' \<Longrightarrow>
   (\<forall>kvs. j = JObj kvs \<longrightarrow> ''reverse'' \<in> set (map fst kvs) \<or> map_of kvs ''id'' \<noteq> Some (JStr k)) \<Longrightarrow>
   pending_responses c' k = pending_responses c k"
  apply (cases j)
  apply (auto simp: route_message_def split: sum.splits bool.splits option.splits if_splits
       elim!: pending_lookup.elims)
  done





lemma handle_line_slot:
  assumes "handle_line loads c l = Inr c'" and "\<not> reply_frame_for loads k (Line l)"
  shows "pending_responses c' k = pending_responses c k"
proof (cases "startswith (strip l) '':''")
  case True
  with assms(1) show ?thesis by (simp add: handle_line_def)
next
  case colon: False
  show ?thesis
  proof (cases "startswith (strip l) ''data:''")
    case False
    with colon assms(1) show ?thesis by (simp add: handle_line_def)
  next
    case True
    note sp = startswith_data [OF True]
    show ?thesis
    proof (cases "loads (strip (drop 5 (strip l)))")
      case (Inl e)
      with colon True sp assms(1) show ?thesis
        by (simp add: handle_line_def split: if_splits)
    next
      case (Inr j)
      with colon True sp assms(1) have r: "route_message c j = Inr c'"
        by (simp add: handle_line_def)
      from assms(2) True Inr
      have "\<forall>kvs. j = JObj kvs \<longrightarrow>
              ''reverse'' \<in> set (map fst kvs) \<or> map_of kvs ''id'' \<noteq> Some (JStr k)"
        by (auto simp: reply_frame_for_def)
      with r show ?thesis by (rule route_message_other)
    qed
  qed
qed

lemma reply_frame_for_text:
  "reply_frame_for loads k (BadUtf8 s) = reply_frame_for loads k (Line s)"
  by (simp add: reply_frame_for_def)

lemma reader_step_slot:
  assumes "\<not> reply_frame_for loads k r"
  shows "pending_responses (reader_step loads c r) k = pending_responses c k"
proof (cases r)
  case (Line s)
  with assms show ?thesis
    by (auto simp: reader_step_def the_text_def split: sum.splits dest: handle_line_slot)
next
  case (BadUtf8 s)
  with assms have "\<not> reply_frame_for loads k (Line s)" by (simp add: reply_frame_for_text)
  with BadUtf8 show ?thesis
    by (auto simp: reader_step_def the_text_def split: sum.splits dest: handle_line_slot)
next
  case ReadRaises
  then show ?thesis by (simp add: reader_step_def the_text_def)
qed

lemma reader_thread_slot:
  "\<forall>r\<in>set rs. \<not> reply_frame_for loads k r \<Longrightarrow>
   pending_responses (sse_reader_thread loads c rs) k = pending_responses c k"
  unfolding sse_reader_thread_def
  by (induction rs arbitrary: c) (simp_all add: reader_step_slot)

lemma reader_thread_append:
  "sse_reader_thread loads c (xs @ ys) = sse_reader_thread loads (sse_reader_thread loads c xs) ys"
  by (simp add: sse_reader_thread_def)

subsection \<open>The reverse-call queue under a schedule\<close>

lemma route_message_queue_prefix:
  "route_message (c\<lparr>reverse_queue := p @ reverse_queue c\<rparr>) j =
     (case route_message c j of
        Inl e \<Rightarrow> Inl e
      | Inr c' \<Rightarrow> Inr (c'\<lparr>reverse_queue := p @ reverse_queue c'\<rparr>))"
  by (simp add: route_message_def split: sum.split bool.split option.split)

lemma handle_line_queue_prefix:
  "handle_line loads (c\<lparr>reverse_queue := p @ reverse_queue c\<rparr>) l =
     (case handle_line loads c l of
        Inl e \<Rightarrow> Inl e
      | Inr c' \<Rightarrow> Inr (c'\<lparr>reverse_queue := p @ reverse_queue c'\<rparr>))"
  by (simp add: handle_line_def Let_def route_message_queue_prefix split: sum.split)

lemma reader_step_queue_prefix:
  "reader_step loads (c\<lparr>reverse_queue := p @ reverse_queue c\<rparr>) r =
     (reader_step loads c r)\<lparr>reverse_queue := p @ reverse_queue (reader_step loads c r)\<rparr>"
  by (simp add: reader_step_def handle_line_queue_prefix split: sum.split)

lemma send_tool_reply_connection:
  "send_tool_reply dumps post c call_id result = (ok, c', effs) \<Longrightarrow> c' = c"
  by (auto simp: send_tool_reply_def Let_def split: post_result.splits if_splits)

lemma listen_step_queue:
  "listen_step env dumps post c = (m, c', effs) \<Longrightarrow>
   (reverse_queue c = [] \<and> m = None \<and> c' = c) \<or>
   (\<exists>rest msg. reverse_queue c = msg # rest \<and> m = Some msg \<and> c' = c\<lparr>reverse_queue := rest\<rparr>)"
  by (auto simp: listen_step_def Let_def
        split: list.splits json.splits option.splits sum.splits prod.splits
        dest: send_tool_reply_connection)


lemma reader_thread_stopped:
  "thread c \<noteq> Running \<Longrightarrow> sse_reader_thread loads c rs = c"
  unfolding sse_reader_thread_def
  by (induction rs) (simp_all add: reader_step_def)

lemma colon_not_data: "startswith s '':'' \<Longrightarrow> \<not> startswith s ''data:''"
  by (cases s) (auto simp: startswith_def)

lemma route_message_queue:
  "route_message c j = Inr c' \<Longrightarrow>
   reverse_queue c' = reverse_queue c @ (if py_in ''reverse'' j = Inr True then [j] else []) \<and>
   thread c' = thread c"
  by (auto simp: route_message_def split: sum.splits bool.splits option.splits)

lemma handle_line_queue:
  assumes "handle_line loads c l = Inr c'"
  shows "reverse_queue c' =
           reverse_queue c @ (case reverse_frame loads (Line l) of Some j \<Rightarrow> [j] | None \<Rightarrow> []) \<and>
         thread c' = thread c"
proof (cases "startswith (strip l) '':''")
  case True
  with assms colon_not_data [OF True] show ?thesis
    by (simp add: handle_line_def reverse_frame_def)
next
  case colon: False
  show ?thesis
  proof (cases "startswith (strip l) ''data:''")
    case False
    with colon assms show ?thesis by (simp add: handle_line_def reverse_frame_def)
  next
    case True
    note sp = startswith_data [OF True]
    show ?thesis
    proof (cases "loads (strip (drop 5 (strip l)))")
      case (Inl e)
      with colon True sp assms show ?thesis
        by (simp add: handle_line_def reverse_frame_def split: if_splits)
    next
      case (Inr j)
      with colon True sp assms have "route_message c j = Inr c'"
        by (simp add: handle_line_def)
      from route_message_queue [OF this] True Inr show ?thesis
        by (simp add: reverse_frame_def)
    qed
  qed
qed

lemma reverse_frame_text:
  "reverse_frame loads (BadUtf8 s) = reverse_frame loads (Line s)"
  by (simp add: reverse_frame_def)

lemma reader_step_running:
  assumes "thread (reader_step loads c r) = Running"
  shows "reverse_queue (reader_step loads c r) =
           reverse_queue c @ (case reverse_frame loads r of Some j \<Rightarrow> [j] | None \<Rightarrow> [])"
proof (cases r)
  case (Line s)
  with assms show ?thesis
    by (auto simp: reader_step_def the_text_def split: if_splits sum.splits
          dest: handle_line_queue)
next
  case (BadUtf8 s)
  with assms show ?thesis
    by (auto simp: reader_step_def the_text_def reverse_frame_text split: if_splits sum.splits
          dest: handle_line_queue)
next
  case ReadRaises
  with assms show ?thesis
    by (auto simp: reader_step_def the_text_def split: if_splits)
qed

lemma reader_step_not_running:
  assumes "thread (reader_step loads c r) \<noteq> Running"
  shows "reverse_queue (reader_step loads c r) = reverse_queue c"
  using assms
  by (auto simp: reader_step_def split: if_splits sum.splits dest: handle_line_queue)

lemma reader_thread_queue:
  "\<exists>n\<le>length rs.
     reverse_queue (sse_reader_thread loads c rs)
       = reverse_queue c @ List.map_filter (reverse_frame loads) (take n rs) \<and>
     (thread (sse_reader_thread loads c rs) = Running \<longrightarrow> n = length rs)"
proof (induction rs arbitrary: c)
  case Nil
  then show ?case by (simp add: sse_reader_thread_def)
next
  case (Cons r rs)
  let ?c1 = "reader_step loads c r"
  have unfold: "sse_reader_thread loads c (r # rs) = sse_reader_thread loads ?c1 rs"
    by (simp add: sse_reader_thread_def)
  show ?case
  proof (cases "thread ?c1 = Running")
    case True
    from Cons.IH [of ?c1] obtain n where n: "n \<le> length rs"
      and q: "reverse_queue (sse_reader_thread loads ?c1 rs)
                = reverse_queue ?c1 @ List.map_filter (reverse_frame loads) (take n rs)"
      and t: "thread (sse_reader_thread loads ?c1 rs) = Running \<longrightarrow> n = length rs"
      by blast
    have "reverse_queue (sse_reader_thread loads c (r # rs))
            = reverse_queue c @ List.map_filter (reverse_frame loads) (take (Suc n) (r # rs))"
      unfolding unfold q reader_step_running [OF True]
      by (simp split: option.split)
    with n t show ?thesis
      unfolding unfold by (intro exI [of _ "Suc n"]) simp
  next
    case False
    then have "sse_reader_thread loads ?c1 rs = ?c1" by (rule reader_thread_stopped)
    with False reader_step_not_running [OF False] show ?thesis
      unfolding unfold by (intro exI [of _ 0]) simp
  qed
qed

lemma run_schedule_producer:
  "foldl (sched_step loads env dumps post) (c, got) acts = (c', got') \<Longrightarrow>
   sse_reader_thread loads (c\<lparr>reverse_queue := got @ reverse_queue c\<rparr>) (reads_of acts)
     = c'\<lparr>reverse_queue := got' @ reverse_queue c'\<rparr>"
proof (induction acts arbitrary: c got)
  case Nil
  then show ?case by (simp add: sse_reader_thread_def reads_of_def)
next
  case (Cons a acts)
  show ?case
  proof (cases a)
    case (Read r)
    with Cons.prems have
      "foldl (sched_step loads env dumps post) (reader_step loads c r, got) acts = (c', got')"
      by simp
    from Cons.IH [OF this] Read show ?thesis
      by (simp add: reads_of_def sse_reader_thread_def reader_step_queue_prefix)
  next
    case Dequeue
    obtain m c1 effs where l: "listen_step env dumps post c = (m, c1, effs)"
      by (cases "listen_step env dumps post c") auto
    from listen_step_queue [OF l] show ?thesis
    proof
      assume e: "reverse_queue c = [] \<and> m = None \<and> c1 = c"
      with Cons.prems Dequeue l have
        "foldl (sched_step loads env dumps post) (c, got) acts = (c', got')" by simp
      from Cons.IH [OF this] Dequeue show ?thesis by (simp add: reads_of_def)
    next
      assume "\<exists>rest msg. reverse_queue c = msg # rest \<and> m = Some msg \<and>
                c1 = c\<lparr>reverse_queue := rest\<rparr>"
      then obtain rest msg where q: "reverse_queue c = msg # rest" and m: "m = Some msg"
        and c1: "c1 = c\<lparr>reverse_queue := rest\<rparr>" by blast
      with Cons.prems Dequeue l have
        "foldl (sched_step loads env dumps post) (c\<lparr>reverse_queue := rest\<rparr>, got @ [msg]) acts
           = (c', got')" by simp
      from Cons.IH [OF this] Dequeue q show ?thesis by (simp add: reads_of_def)
    qed
  qed
qed

subsection \<open>Routing of an object\<close>

text \<open>
  What the reader does with a payload that is a JSON object: with a \<open>reverse\<close> field it
  goes to the reverse-call queue whatever else it carries; otherwise, with an \<open>id\<close> that
  is the key of a pending request, to the queue of that request; otherwise it is dropped.
  An \<open>id\<close> that is a list or an object is unhashable and raises TypeError.
\<close>

lemma route_message_object:
  "route_message c (JObj kvs) =
     (if ''reverse'' \<in> set (map fst kvs)
      then Inr (c\<lparr>reverse_queue := reverse_queue c @ [JObj kvs]\<rparr>)
      else (case map_of kvs ''id'' of
              None \<Rightarrow> Inr c
            | Some (JStr k) \<Rightarrow>
                if k \<in> dom (pending_responses c)
                then Inr (c\<lparr>pending_responses := (pending_responses c)
                              (k \<mapsto> the (pending_responses c k) @ [JObj kvs])\<rparr>)
                else Inr c
            | Some (JArr xs) \<Rightarrow> Inl TypeError
            | Some (JObj members) \<Rightarrow> Inl TypeError
            | Some v \<Rightarrow> Inr c))"
proof (cases "map_of kvs ''id''")
  case None
  then have "''id'' \<notin> set (map fst kvs)" by (simp add: map_of_eq_None_iff)
  with None show ?thesis by (simp add: route_message_def)
next
  case (Some v)
  then have "''id'' \<in> set (map fst kvs)"
    by (metis map_of_eq_None_iff option.distinct(1) set_map)
  with Some show ?thesis
    by (cases v) (auto simp: route_message_def)
qed

subsection \<open>The bridge answers a call for a tool it does not know\<close>

lemma handle_tool_call_unknown:
  assumes "\<forall>name. known_tool tool_name \<noteq> Inr (Some name)"
  shows "\<exists>t. handle_tool_call env tool_name input_data = text_result t True"
  using assms
  by (auto simp: handle_tool_call_def handle_tool_call_body_def split: sum.splits option.splits)

lemma listen_step_unknown_tool:
  assumes "\<forall>name. known_tool tool_name \<noteq> Inr (Some name)"
  shows "\<exists>t. listen_step env dumps post
           (c\<lparr>reverse_queue :=
                JObj [(''reverse'', JObj [(''tool'', tool_name), (''call_id'', call_id),
                                         (''input'', input_data)])] # rest\<rparr>)
         = (Some (JObj [(''reverse'', JObj [(''tool'', tool_name), (''call_id'', call_id),
                                         (''input'', input_data)])]),
            c\<lparr>reverse_queue := rest\<rparr>,
            snd (snd (send_tool_reply dumps post (c\<lparr>reverse_queue := rest\<rparr>) call_id
                        (text_result t True))))"
proof -
  from handle_tool_call_unknown [OF assms] obtain t where
    t: "handle_tool_call env tool_name input_data = text_result t True" by blast
  obtain ok c2 effs where s: "send_tool_reply dumps post (c\<lparr>reverse_queue := rest\<rparr>) call_id
                        (text_result t True) = (ok, c2, effs)"
    by (cases "send_tool_reply dumps post (c\<lparr>reverse_queue := rest\<rparr>) call_id
                        (text_result t True)") auto
  from send_tool_reply_connection [OF s] have c2: "c2 = c\<lparr>reverse_queue := rest\<rparr>" .
  show ?thesis
    by (intro exI [of _ t]) (simp add: listen_step_def Let_def t s c2)
qed

subsection \<open>Splitting strings\<close>

lemma startswith_append: "startswith s p \<Longrightarrow> s = p @ drop (length p) s"
  unfolding startswith_def by (metis append_take_drop_id)

lemma startswith_prefix_append: "startswith (p @ s) p"
  by (simp add: startswith_def)

lemma split_first_append:
  "split_first sep s = Some (b, a) \<Longrightarrow> s = b @ sep @ a"
proof (induction s arbitrary: b)
  case Nil
  then show ?case by simp
next
  case (Cons c cs)
  show ?case
  proof (cases "startswith (c # cs) sep")
    case True
    with Cons.prems have "b = []" and "a = drop (length sep) (c # cs)" by simp_all
    with startswith_append [OF True] show ?thesis by simp
  next
    case False
    with Cons.prems obtain b' where "split_first sep cs = Some (b', a)" and "b = c # b'"
      by (auto split: option.splits)
    with Cons.IH show ?thesis by simp
  qed
qed

lemma startswith_shorter:
  assumes "startswith xs sep"
  shows "startswith (xs @ rest) sep"
proof -
  from assms have t: "take (length sep) xs = sep" by (simp add: startswith_def)
  then have "length (take (length sep) xs) = length sep" by simp
  then have "length sep \<le> length xs" by simp
  with t show ?thesis by (simp add: startswith_def)
qed

lemma split_first_before:
  "split_first sep s = Some (b, a) \<Longrightarrow> sep \<noteq> [] \<Longrightarrow> \<not> str_contains b sep"
proof (induction s arbitrary: b)
  case Nil
  then show ?case by simp
next
  case (Cons c cs)
  show ?case
  proof (cases "startswith (c # cs) sep")
    case True
    with Cons.prems show ?thesis by simp
  next
    case False
    with Cons.prems obtain b' where sp: "split_first sep cs = Some (b', a)" and b: "b = c # b'"
      by (auto split: option.splits)
    from split_first_append [OF sp] have cs: "c # cs = (c # b') @ sep @ a" by simp
    have "\<not> startswith (c # b') sep"
    proof
      assume "startswith (c # b') sep"
      from startswith_shorter [OF this, of "sep @ a"] cs False show False by simp
    qed
    with Cons.IH [OF sp Cons.prems(2)] b show ?thesis by simp
  qed
qed

lemma split_first_None:
  "split_first sep s = None \<Longrightarrow> sep \<noteq> [] \<Longrightarrow> \<not> str_contains s sep"
  by (induction s) (auto split: if_splits option.splits)

lemma split_item0_char:
  "split_item0 [c] s = takeWhile (\<lambda>x. x \<noteq> c) s"
proof -
  have "(case split_first [c] s of None \<Rightarrow> s | Some (b, a) \<Rightarrow> b) = takeWhile (\<lambda>x. x \<noteq> c) s"
    by (induction s) (auto simp: startswith_def split: option.splits)
  then show ?thesis by (simp add: split_item0_def)
qed

lemma split_item0_segment:
  assumes "sep \<noteq> []"
  shows "\<exists>tail. s = split_item0 sep s @ tail \<and> \<not> str_contains (split_item0 sep s) sep \<and>
           (tail = [] \<or> startswith tail sep)"
proof (cases "split_first sep s")
  case None
  with split_first_None [OF None assms] show ?thesis by (simp add: split_item0_def)
next
  case (Some ba)
  obtain b a where ba: "ba = (b, a)" by (cases ba)
  with Some have sp: "split_first sep s = Some (b, a)" by simp
  from split_first_append [OF sp] split_first_before [OF sp assms] sp
  show ?thesis
    by (intro exI [of _ "sep @ a"]) (simp add: split_item0_def startswith_prefix_append)
qed

lemma split_item1_segment:
  assumes "str_contains d sep" and "sep \<noteq> []"
  shows "\<exists>before seg tail.
           d = before @ sep @ seg @ tail \<and> \<not> str_contains before sep \<and>
           \<not> str_contains seg sep \<and> (tail = [] \<or> startswith tail sep) \<and>
           split_item1 sep d = Inr seg"
proof (cases "split_first sep d")
  case None
  from split_first_None [OF None assms(2)] assms(1) show ?thesis by simp
next
  case (Some ba)
  obtain b a where ba: "ba = (b, a)" by (cases ba)
  with Some have sp: "split_first sep d = Some (b, a)" by simp
  from split_item0_segment [OF assms(2), of a] obtain tail where
    t: "a = split_item0 sep a @ tail" "\<not> str_contains (split_item0 sep a) sep"
       "tail = [] \<or> startswith tail sep" by blast
  from split_first_append [OF sp] t(1) have "d = b @ sep @ split_item0 sep a @ tail" by simp
  moreover have "split_item1 sep d = Inr (split_item0 sep a)" using sp by (simp add: split_item1_def)
  ultimately show ?thesis using split_first_before [OF sp assms(2)] t(2,3) by blast
qed

subsection \<open>The handshake\<close>

lemma startswith_event: "startswith s ''event:'' \<Longrightarrow> split_max1_item1 '':'' s = Inr (drop 6 s)"
proof -
  assume "startswith s ''event:''"
  then have "take (length ''event:'') s = ''event:''" by (simp only: startswith_def)
  then have "s = ''event:'' @ drop (length ''event:'') s" by (metis append_take_drop_id)
  then obtain rest where s: "s = ''event:'' @ rest" by blast
  have "split_max1_item1 '':'' (''event:'' @ rest) = Inr rest"
    by (simp add: split_max1_item1_def startswith_def)
  moreover have "drop 6 (''event:'' @ rest) = rest" by simp
  ultimately show ?thesis unfolding s by simp
qed

lemma event_not_data: "startswith s ''event:'' \<Longrightarrow> \<not> startswith s ''data:''"
  by (cases s) (auto simp: startswith_def)

lemma event_type_after_Cons:
  "event_type_after ev (l # ls) =
     event_type_after (if startswith l ''event:'' then Some (strip (drop 6 l)) else ev) ls"
  by (simp add: event_type_after_def)

lemma event_type_after_Nil: "event_type_after ev [] = ev"
  by (simp add: event_type_after_def)

lemma handshake_step_line:
  "handshake (Suc n) ev None (Line s # rest) =
     (let line = strip s in
      if startswith line ''event:'' then handshake n (Some (strip (drop 6 line))) None rest
      else if startswith line ''data:'' then
        (let data = strip (drop 5 line) in
         if ev = Some ''endpoint'' then
           (if str_contains data ''session_id='' then
              (case split_item1 ''session_id='' data of
                 Inl e \<Rightarrow> Inl e
               | Inr seg \<Rightarrow> Inr (Some data, Some (split_item0 ''&'' seg), rest))
            else Inr (Some data, None, rest))
         else handshake n ev None rest)
      else handshake n ev None rest)"
  by (simp add: readline_def decode_strict_def Let_def startswith_event startswith_data truthy_def)

lemma handshake_step_eof:
  "handshake (Suc n) ev None [] = handshake n ev None []"
  by (simp add: readline_def decode_strict_def Let_def strip_def startswith_def truthy_def)

lemma handshake_eof: "handshake n ev None [] = Inr (None, None, [])"
  by (induction n) (simp_all only: handshake.simps(1) handshake_step_eof)


lemma is_line_text: "is_line r \<Longrightarrow> \<exists>s. r = Line s \<and> line_text r = strip s"
  by (cases r) (simp_all add: is_line_def line_text_def)

lemma handshake_no_endpoint:
  assumes "\<forall>r\<in>set (take n rs). is_line r"
    and "\<forall>j<min n (length rs).
           \<not> (startswith (line_text (rs ! j)) ''data:'' \<and>
              event_type_after ev (map line_text (take j rs)) = Some ''endpoint'')"
  shows "handshake n ev None rs = Inr (None, None, drop n rs)"
  using assms
proof (induction n arbitrary: ev rs)
  case 0
  show ?case by simp
next
  case (Suc n)
  show ?case
  proof (cases rs)
    case Nil
    then show ?thesis by (simp only: handshake_eof drop_Nil)
  next
    case (Cons r rest)
    from Suc.prems(1) Cons have "is_line r" by simp
    then obtain s where r: "r = Line s" and lt: "line_text r = strip s"
      using is_line_text by blast
    from Suc.prems(1) Cons have lines: "\<forall>r\<in>set (take n rest). is_line r" by simp
    have shift: "\<forall>j<min n (length rest).
           \<not> (startswith (line_text (rest ! j)) ''data:'' \<and>
              event_type_after (if startswith (strip s) ''event:''
                                then Some (strip (drop 6 (strip s))) else ev)
                (map line_text (take j rest)) = Some ''endpoint'')"
    proof (intro allI impI)
      fix j assume "j < min n (length rest)"
      then have "Suc j < min (Suc n) (length rs)" using Cons by simp
      with Suc.prems(2) have
        "\<not> (startswith (line_text (rs ! Suc j)) ''data:'' \<and>
            event_type_after ev (map line_text (take (Suc j) rs)) = Some ''endpoint'')"
        by blast
      then show "\<not> (startswith (line_text (rest ! j)) ''data:'' \<and>
              event_type_after (if startswith (strip s) ''event:''
                                then Some (strip (drop 6 (strip s))) else ev)
                (map line_text (take j rest)) = Some ''endpoint'')"
        using Cons lt by (simp add: event_type_after_Cons)
    qed
    have first: "\<not> (startswith (strip s) ''data:'' \<and> ev = Some ''endpoint'')"
    proof -
      have "0 < min (Suc n) (length rs)" using Cons by simp
      with Suc.prems(2) have
        "\<not> (startswith (line_text (rs ! 0)) ''data:'' \<and>
            event_type_after ev (map line_text (take 0 rs)) = Some ''endpoint'')"
        by blast
      then show ?thesis using Cons lt by (simp add: event_type_after_Nil)
    qed
    show ?thesis
    proof (cases "startswith (strip s) ''event:''")
      case True
      with shift have sh: "\<forall>j<min n (length rest).
           \<not> (startswith (line_text (rest ! j)) ''data:'' \<and>
              event_type_after (Some (strip (drop 6 (strip s))))
                (map line_text (take j rest)) = Some ''endpoint'')" by simp
      from Suc.IH [OF lines sh] True show ?thesis
        unfolding Cons r by (simp add: handshake_step_line del: handshake.simps)
    next
      case False
      with shift have sh: "\<forall>j<min n (length rest).
           \<not> (startswith (line_text (rest ! j)) ''data:'' \<and>
              event_type_after ev (map line_text (take j rest)) = Some ''endpoint'')" by simp
      from Suc.IH [OF lines sh] False first show ?thesis
        unfolding Cons r by (simp add: handshake_step_line Let_def del: handshake.simps)
    qed
  qed
qed

lemma handshake_no_endpoint_value:
  assumes "\<forall>j<min n (length rs).
           \<not> (startswith (line_text (rs ! j)) ''data:'' \<and>
              event_type_after ev (map line_text (take j rs)) = Some ''endpoint'')"
  shows "(\<exists>e. handshake n ev None rs = Inl e) \<or>
         (\<exists>rest. handshake n ev None rs = Inr (None, None, rest))"
  using assms
proof (induction n arbitrary: ev rs)
  case 0
  show ?case by simp
next
  case (Suc n)
  show ?case
  proof (cases rs)
    case Nil
    then show ?thesis by (simp only: handshake_eof) blast
  next
    case (Cons r rest)
    show ?thesis
    proof (cases "is_line r")
      case False
      then have "\<exists>e. handshake (Suc n) ev None (r # rest) = Inl e"
        by (cases r) (simp_all add: is_line_def readline_def decode_strict_def)
      with Cons show ?thesis by blast
    next
      case True
      then obtain s where r: "r = Line s" and lt: "line_text r = strip s"
        using is_line_text by blast
      have shift: "\<forall>j<min n (length rest).
           \<not> (startswith (line_text (rest ! j)) ''data:'' \<and>
              event_type_after (if startswith (strip s) ''event:''
                                then Some (strip (drop 6 (strip s))) else ev)
                (map line_text (take j rest)) = Some ''endpoint'')"
      proof (intro allI impI)
        fix j assume "j < min n (length rest)"
        then have "Suc j < min (Suc n) (length rs)" using Cons by simp
        with Suc.prems have
          "\<not> (startswith (line_text (rs ! Suc j)) ''data:'' \<and>
              event_type_after ev (map line_text (take (Suc j) rs)) = Some ''endpoint'')"
          by blast
        then show "\<not> (startswith (line_text (rest ! j)) ''data:'' \<and>
              event_type_after (if startswith (strip s) ''event:''
                                then Some (strip (drop 6 (strip s))) else ev)
                (map line_text (take j rest)) = Some ''endpoint'')"
          using Cons lt by (simp add: event_type_after_Cons)
      qed
      have first: "\<not> (startswith (strip s) ''data:'' \<and> ev = Some ''endpoint'')"
      proof -
        have "0 < min (Suc n) (length rs)" using Cons by simp
        with Suc.prems have
          "\<not> (startswith (line_text (rs ! 0)) ''data:'' \<and>
              event_type_after ev (map line_text (take 0 rs)) = Some ''endpoint'')"
          by blast
        then show ?thesis using Cons lt by (simp add: event_type_after_Nil)
      qed
      show ?thesis
      proof (cases "startswith (strip s) ''event:''")
        case True
        with shift have sh: "\<forall>j<min n (length rest).
           \<not> (startswith (line_text (rest ! j)) ''data:'' \<and>
              event_type_after (Some (strip (drop 6 (strip s))))
                (map line_text (take j rest)) = Some ''endpoint'')" by simp
        from Suc.IH [OF sh] True show ?thesis
          unfolding Cons r by (simp add: handshake_step_line del: handshake.simps)
      next
        case False
        with shift have sh: "\<forall>j<min n (length rest).
           \<not> (startswith (line_text (rest ! j)) ''data:'' \<and>
              event_type_after ev (map line_text (take j rest)) = Some ''endpoint'')" by simp
        from Suc.IH [OF sh] False first show ?thesis
          unfolding Cons r by (simp add: handshake_step_line Let_def del: handshake.simps)
      qed
    qed
  qed
qed

lemma handshake_finds:
  assumes "\<forall>r\<in>set pre. is_line r" and "length pre < n"
    and "\<forall>j<length pre.
           \<not> (startswith (line_text (pre ! j)) ''data:'' \<and>
              event_type_after ev (map line_text (take j pre)) = Some ''endpoint'')"
    and "event_type_after ev (map line_text pre) = Some ''endpoint''"
    and "startswith (strip l) ''data:''"
  shows "handshake n ev None (pre @ Line l # rest) =
     (let data = strip (drop 5 (strip l)) in
      if str_contains data ''session_id='' then
        (case split_item1 ''session_id='' data of
           Inl e \<Rightarrow> Inl e
         | Inr seg \<Rightarrow> Inr (Some data, Some (split_item0 ''&'' seg), rest))
      else Inr (Some data, None, rest))"
  using assms(1-4)
proof (induction pre arbitrary: n ev)
  case Nil
  then obtain m where n: "n = Suc m" by (cases n) auto
  from Nil.prems(4) have ev: "ev = Some ''endpoint''" by (simp add: event_type_after_Nil)
  from assms(5) have "\<not> startswith (strip l) ''event:''" using event_not_data by blast
  with assms(5) ev show ?case
    unfolding n by (simp add: handshake_step_line Let_def del: handshake.simps)
next
  case (Cons r pre)
  from Cons.prems(2) obtain m where n: "n = Suc m" and m: "length pre < m" by (cases n) auto
  from Cons.prems(1) have "is_line r" by simp
  then obtain s where r: "r = Line s" and lt: "line_text r = strip s"
    using is_line_text by blast
  from Cons.prems(1) have lines: "\<forall>r\<in>set pre. is_line r" by simp
  let ?ev = "if startswith (strip s) ''event:'' then Some (strip (drop 6 (strip s))) else ev"
  have shift: "\<forall>j<length pre.
           \<not> (startswith (line_text (pre ! j)) ''data:'' \<and>
              event_type_after ?ev (map line_text (take j pre)) = Some ''endpoint'')"
  proof (intro allI impI)
    fix j assume "j < length pre"
    then have "Suc j < length (r # pre)" by simp
    with Cons.prems(3) have
      "\<not> (startswith (line_text ((r # pre) ! Suc j)) ''data:'' \<and>
          event_type_after ev (map line_text (take (Suc j) (r # pre))) = Some ''endpoint'')"
      by blast
    then show "\<not> (startswith (line_text (pre ! j)) ''data:'' \<and>
              event_type_after ?ev (map line_text (take j pre)) = Some ''endpoint'')"
      using lt by (simp add: event_type_after_Cons)
  qed
  from Cons.prems(4) lt have last: "event_type_after ?ev (map line_text pre) = Some ''endpoint''"
    by (simp add: event_type_after_Cons)
  have first: "\<not> (startswith (strip s) ''data:'' \<and> ev = Some ''endpoint'')"
  proof -
    have "0 < length (r # pre)" by simp
    with Cons.prems(3) have
      "\<not> (startswith (line_text ((r # pre) ! 0)) ''data:'' \<and>
          event_type_after ev (map line_text (take 0 (r # pre))) = Some ''endpoint'')"
      by blast
    then show ?thesis using lt by (simp add: event_type_after_Nil)
  qed
  note ih = Cons.IH [OF lines m shift last]
  show ?case
  proof (cases "startswith (strip s) ''event:''")
    case True
    with ih show ?thesis
      unfolding n r by (simp add: handshake_step_line del: handshake.simps)
  next
    case False
    with ih first show ?thesis
      unfolding n r by (simp add: handshake_step_line Let_def del: handshake.simps)
  qed
qed

lemma yields_endpoint_list:
  "yields_endpoint n stream \<longleftrightarrow>
     list_ex (\<lambda>j. startswith (line_text (stream ! j)) ''data:'' \<and>
                  event_type_after None (map line_text (take j stream)) = Some ''endpoint'')
       [0..<min n (length stream)]"
  by (auto simp: yields_endpoint_def list_ex_iff)


subsection \<open>A decoder that raises\<close>

text \<open>
  An exception of \<open>json.loads\<close> other than JSONDecodeError is not caught where the frame
  is handled: it ends the reader thread.
\<close>

lemma handle_line_decoder_raises:
  assumes "startswith (strip l) ''data:''"
    and "loads (strip (drop 5 (strip l))) = Inl e" and "e \<noteq> JSONDecodeError"
  shows "handle_line loads c l = Inl e"
proof -
  from assms(1) have "\<not> startswith (strip l) '':''" using colon_not_data by blast
  with assms startswith_data [OF assms(1)] show ?thesis
    by (simp add: handle_line_def)
qed

lemma reader_step_decoder_raises:
  assumes "thread c = Running" and "\<not> stop_event c"
    and "startswith (strip l) ''data:''"
    and "loads (strip (drop 5 (strip l))) = Inl e" and "e \<noteq> JSONDecodeError"
  shows "reader_step loads c (Line l) = c\<lparr>thread := Crashed e\<rparr>"
proof -
  from assms(3) have "l \<noteq> []" by (auto simp: strip_def startswith_def)
  moreover have "handle_line loads c l = Inl e"
    using assms(3) assms(4) assms(5) by (rule handle_line_decoder_raises)
  ultimately show ?thesis using assms(1,2)
    by (simp add: reader_step_def the_text_def at_eof_def)
qed

subsection \<open>The timeout of a call\<close>

text \<open>
  A negative timeout makes \<open>queue.get\<close> raise at once, whatever is in the queue: the call
  removes its entry, logs that the request failed and returns \<open>None\<close>. Without a timeout a
  call for which no reply comes never returns, and its entry stays in the table.
\<close>

lemma send_jsonrpc_request_negative_timeout:
  assumes "post (post_request c (dumps (jsonrpc_request request_id method params))) = PostStatus 202"
    and "t < 0"
  shows "send_jsonrpc_request loads dumps post c request_id method params (Some t)
           during_post during_wait
         = (Returned None,
            pop_pending (sse_reader_thread loads (register_pending c request_id) during_post)
              request_id,
            [Register request_id,
             Post (post_request c (dumps (jsonrpc_request request_id method params))),
             Wait request_id, Remove request_id, Log FailedToSend])"
  using assms by (simp add: send_jsonrpc_request_def Let_def post_request_register)

lemma send_jsonrpc_request_without_deadline:
  assumes "post (post_request c (dumps (jsonrpc_request request_id method params))) = PostStatus 202"
    and "\<forall>r\<in>set (during_post @ during_wait). \<not> reply_frame_for loads request_id r"
  shows "case send_jsonrpc_request loads dumps post c request_id method params None
                during_post during_wait of
           (outcome, c', effs) \<Rightarrow>
             outcome = NeverReturns \<and> pending_responses c' request_id = Some []"
proof -
  let ?c1 = "register_pending c request_id"
  let ?c3 = "sse_reader_thread loads ?c1 (during_post @ during_wait)"
  have slot: "pending_responses ?c3 request_id = Some []"
    using reader_thread_slot [OF assms(2), of ?c1] by (simp add: register_pending_def)
  with assms(1) show ?thesis
    by (simp add: send_jsonrpc_request_def Let_def post_request_register reader_thread_append)
qed

subsection \<open>A stream without an endpoint event\<close>

text \<open>
  When the first ten lines of the stream do not yield an endpoint event,
  \<open>connect_to_sse_endpoint\<close> returns \<open>None\<close>, whatever the status of the response and
  whatever follows the ten lines. When the ten reads returned lines that decode, it has
  closed the connection. The example has its endpoint event on the lines 11 and 12.
\<close>

lemma connect_fails_without_endpoint:
  assumes "\<not> yields_endpoint 10 stream"
  shows "returned (connect_to_sse_endpoint (GetResponse status stream) url auth) = None \<and>
         (list_all is_line (take 10 stream) \<longrightarrow>
            closed (connect_to_sse_endpoint (GetResponse status stream) url auth))"
proof -
  from assms have none: "\<forall>j<min 10 (length stream).
           \<not> (startswith (line_text (stream ! j)) ''data:'' \<and>
              event_type_after None (map line_text (take j stream)) = Some ''endpoint'')"
    by (simp add: yields_endpoint_def)
  from handshake_no_endpoint_value [OF none]
  have "returned (connect_to_sse_endpoint (GetResponse status stream) url auth) = None"
    by (auto simp: connect_to_sse_endpoint_def truthy_def)
  moreover have "closed (connect_to_sse_endpoint (GetResponse status stream) url auth)"
    if "list_all is_line (take 10 stream)"
  proof -
    from that have "\<forall>r\<in>set (take 10 stream). is_line r" by (simp add: list_all_iff)
    from handshake_no_endpoint [OF this none]
    show ?thesis by (simp add: connect_to_sse_endpoint_def truthy_def)
  qed
  ultimately show ?thesis by blast
qed

lemma connect_fails_without_endpoint_example:
  "\<not> yields_endpoint 10 example_late_stream \<and>
   list_all is_line (take 10 example_late_stream) \<and>
   returned (connect_to_sse_endpoint (GetResponse 200 example_late_stream)
               ''http://127.0.0.1:31173/sse'' ''Bearer token'') = None \<and>
   closed (connect_to_sse_endpoint (GetResponse 200 example_late_stream)
             ''http://127.0.0.1:31173/sse'' ''Bearer token'')"
proof -
  have lines: "list_all is_line (take 10 example_late_stream)"
    by (simp add: example_late_stream_def is_line_def)
  have late: "\<not> yields_endpoint 10 example_late_stream"
    by (simp add: yields_endpoint_list example_late_stream_def upt_rec [of _ "numeral _"]
          line_text_def strip_def py_isspace_def startswith_def event_type_after_def)
  note fails = connect_fails_without_endpoint [OF late, of 200
                 "''http://127.0.0.1:31173/sse''" "''Bearer token''"]
  from fails lines
  have shut: "closed (connect_to_sse_endpoint (GetResponse 200 example_late_stream)
             ''http://127.0.0.1:31173/sse'' ''Bearer token'')"
    by blast
  show ?thesis
    by (intro conjI lines late fails [THEN conjunct1] shut)
qed

section \<open>The claims\<close>

text \<open>
  C1. Every decoded payload is classified: one with a \<open>reverse\<close> field goes to the
  reverse-call queue, otherwise one with an \<open>id\<close> field goes to the correlation table, and
  any other payload is dropped. The reader does not check that the payload is an object
  before it tests \<open>'reverse' in json_data\<close>: the payload \<open>null\<close> (like every number and
  bool) is not dropped, the test raises TypeError; and the JSON string \<open>"reverse"\<close>, which
  has no field, is put on the reverse-call queue.
\<close>

theorem route_message_not_an_object:
  "route_message c JNull = Inl TypeError \<and>
   route_message c (JInt 42) = Inl TypeError \<and>
   route_message c (JStr ''reverse'')
     = Inr (c\<lparr>reverse_queue := reverse_queue c @ [JStr ''reverse'']\<rparr>)"
  by (simp add: route_message_def startswith_def)



text \<open>
  C3. A call whose POST raises or is answered with a status other than 202 returns \<open>None\<close>
  without waiting on its queue (what it returns and leaves does not depend on what arrives
  after the POST), and the entry of the request id is removed.
\<close>

theorem send_jsonrpc_request_transport_error:
  assumes refused:
      "post (post_request c (dumps (jsonrpc_request request_id method params))) \<noteq> PostStatus 202"
  shows "case send_jsonrpc_request loads dumps post c request_id method params timeout_seconds
                during_post during_wait of
           (outcome, c', effs) \<Rightarrow>
             outcome = Returned None \<and>
             Wait request_id \<notin> set effs \<and>
             Remove request_id \<in> set effs \<and>
             request_id \<notin> dom (pending_responses c') \<and>
             send_jsonrpc_request loads dumps post c request_id method params any_timeout
               during_post [] = (outcome, c', effs)"
  using refused
  by (cases "post (post_request c (dumps (jsonrpc_request request_id method params)))")
     (auto simp: send_jsonrpc_request_def Let_def post_request_register dom_pop_pending)

theorem send_jsonrpc_request_transport_error_witness:
  \<open>(\<lambda>r. PostStatus 500)
      (post_request example_connection
         ((\<lambda>j. ''{}'') (jsonrpc_request ''r1'' ''tools/list'' (JObj [])))) \<noteq> PostStatus 202 \<and>
   (case send_jsonrpc_request example_loads (\<lambda>j. ''{}'') (\<lambda>r. PostStatus 500) example_connection
          ''r1'' ''tools/list'' (JObj []) (Some 10) []
          [wire_line ''data: {"jsonrpc":"2.0","id":"r1","result":{"tools":[{"name":"remote"}]}}''] of
      (outcome, c', effs) \<Rightarrow>
        outcome = Returned None \<and>
        Wait ''r1'' \<notin> set effs \<and>
        Remove ''r1'' \<in> set effs \<and>
        ''r1'' \<notin> dom (pending_responses c') \<and>
        send_jsonrpc_request example_loads (\<lambda>j. ''{}'') (\<lambda>r. PostStatus 500) example_connection
          ''r1'' ''tools/list'' (JObj []) None [] [] = (outcome, c', effs))\<close>
proof (intro conjI)
  show refused: "(\<lambda>r. PostStatus 500)
      (post_request example_connection
         ((\<lambda>j. ''{}'') (jsonrpc_request ''r1'' ''tools/list'' (JObj [])))) \<noteq> PostStatus 202"
    by simp
  show \<open>case send_jsonrpc_request example_loads (\<lambda>j. ''{}'') (\<lambda>r. PostStatus 500) example_connection
          ''r1'' ''tools/list'' (JObj []) (Some 10) []
          [wire_line ''data: {"jsonrpc":"2.0","id":"r1","result":{"tools":[{"name":"remote"}]}}''] of
      (outcome, c', effs) \<Rightarrow>
        outcome = Returned None \<and>
        Wait ''r1'' \<notin> set effs \<and>
        Remove ''r1'' \<in> set effs \<and>
        ''r1'' \<notin> dom (pending_responses c') \<and>
        send_jsonrpc_request example_loads (\<lambda>j. ''{}'') (\<lambda>r. PostStatus 500) example_connection
          ''r1'' ''tools/list'' (JObj []) None [] [] = (outcome, c', effs)\<close>
    by (rule send_jsonrpc_request_transport_error
         [where post = "\<lambda>r. PostStatus 500" and dumps = "\<lambda>j. ''{}''", OF refused])
qed

text \<open>
  C4. \<open>send_tool_reply\<close> makes exactly one POST. Its body is the serialization of the
  object with \<open>jsonrpc\<close> \<open>"2.0"\<close>, \<open>id\<close> the call id it was given, \<open>method\<close> \<open>"tools/reply"\<close>
  and \<open>params\<close> the object with the result under \<open>result\<close>. It leaves the connection as
  it was, registers nothing in the correlation table and waits on no queue.
\<close>

theorem send_tool_reply_fire_and_forget:
  "fst (snd (send_tool_reply dumps post c call_id result)) = c \<and>
   filter touches_table (snd (snd (send_tool_reply dumps post c call_id result))) = [] \<and>
   filter is_post (snd (snd (send_tool_reply dumps post c call_id result))) =
     [Post \<lparr>req_server = server_url c,
            req_path = message_endpoint c,
            req_headers =
              [(''Content-Type'', ''application/json''),
               (''Content-Length'',
                str_of_nat (length (dumps (JObj [(''jsonrpc'', JStr ''2.0''),
                                                 (''id'', call_id),
                                                 (''method'', JStr ''tools/reply''),
                                                 (''params'', JObj [(''result'', result)])])))),
               (''Authorization'', auth_header c)],
            req_body = dumps (JObj [(''jsonrpc'', JStr ''2.0''),
                                    (''id'', call_id),
                                    (''method'', JStr ''tools/reply''),
                                    (''params'', JObj [(''result'', result)])])\<rparr>]"
  by (simp add: send_tool_reply_def Let_def post_request_def reply_request_def is_post_def
        touches_table_def split: post_result.split)

text \<open>
  C5. A reverse call for a tool without a handler is answered with an error result. The
  loop of \<open>main_worker\<close> in the demo script does not: it takes the call from the queue,
  prints a warning and posts nothing.
\<close>

theorem main_worker_leaves_unknown_tool_unanswered:
  "main_worker_step fmt dumps post
     (c\<lparr>reverse_queue :=
          [JObj [(''reverse'', JObj [(''tool'', JStr ''second_tool''),
                                    (''call_id'', JStr ''abc124''),
                                    (''input'', JObj [])])]]\<rparr>)
   = Inr (Some (JObj [(''reverse'', JObj [(''tool'', JStr ''second_tool''),
                                         (''call_id'', JStr ''abc124''),
                                         (''input'', JObj [])])]),
          c\<lparr>reverse_queue := []\<rparr>, [])"
  by (simp add: main_worker_step_def)

text \<open>
  C6. The reader handles every line without ending: it fulfils a request, puts one reverse
  call on the queue, or discards the line. A \<open>data:\<close> line whose payload is the JSON number
  42 ends the reader thread with TypeError, and a reverse call that follows it is never put
  on the queue; after a line that is not JSON the same reverse call is.
\<close>

theorem reader_thread_dies_on_number:
  \<open>thread (reader_step example_loads example_connection (wire_line ''data: 42'')) = Crashed TypeError \<and>
   reverse_queue
     (sse_reader_thread example_loads example_connection
        [wire_line ''data: 42'',
         wire_line ''data: {"reverse":{"tool":"demo_tool","call_id":"abc123","input":{"message":"hi"}}}''])
     = [] \<and>
   reverse_queue
     (sse_reader_thread example_loads example_connection
        [wire_line ''data: not json'',
         wire_line ''data: {"reverse":{"tool":"demo_tool","call_id":"abc123","input":{"message":"hi"}}}''])
     = [JObj [(''reverse'', JObj [(''tool'', JStr ''demo_tool''),
                                 (''call_id'', JStr ''abc123''),
                                 (''input'', JObj [(''message'', JStr ''hi'')])])]]\<close>
  by (simp add: example_connection_def new_connection_def
        sse_reader_thread_def reader_step_def the_text_def at_eof_def
        handle_line_def strip_def py_isspace_def startswith_def split_max1_item1_def
        example_loads_def route_message_def)

text \<open>
  C8, as amended. Registering a request id never fails: it puts a new empty queue under
  the id whether or not the table had an entry for it, an entry it had is replaced, and the
  entries of other ids stay; it is the first thing \<open>send_jsonrpc_request\<close> does.
\<close>

theorem register_pending_replaces:
  "pending_responses (register_pending c request_id) request_id = Some [] \<and>
   dom (pending_responses (register_pending c request_id))
     = insert request_id (dom (pending_responses c)) \<and>
   (pending_responses (register_pending c request_id))(request_id := None)
     = (pending_responses c)(request_id := None) \<and>
   hd (snd (snd (send_jsonrpc_request loads dumps post c request_id method params
                   timeout_seconds during_post during_wait))) = Register request_id"
  by (simp add: register_pending_def send_jsonrpc_request_def Let_def
        split: post_result.split option.split list.split)

text \<open>
  C8, as stated, fails on a table that has the id: the queue under \<open>r1\<close>, which held an
  element, is empty after the registration, and the call with this id returns the reply
  that arrives for it.
\<close>

theorem register_duplicate_counterexample:
  \<open>pending_responses (example_connection\<lparr>pending_responses := [''r1'' \<mapsto> [JNull]]\<rparr>) ''r1''
     = Some [JNull] \<and>
   pending_responses
     (register_pending (example_connection\<lparr>pending_responses := [''r1'' \<mapsto> [JNull]]\<rparr>) ''r1'')
     ''r1'' = Some [] \<and>
   fst (send_jsonrpc_request example_loads (\<lambda>j. ''{}'') (\<lambda>r. PostStatus 202)
          (example_connection\<lparr>pending_responses := [''r1'' \<mapsto> [JNull]]\<rparr>)
          ''r1'' ''tools/list'' (JObj []) (Some 10) []
          [wire_line ''data: {"jsonrpc":"2.0","id":"r1","result":{"tools":[{"name":"remote"}]}}''])
     = Returned (Some (JObj [(''jsonrpc'', JStr ''2.0''), (''id'', JStr ''r1''),
                   (''result'', JObj [(''tools'', JArr [JObj [(''name'', JStr ''remote'')]])])]))\<close>
  by (simp add: register_pending_def example_connection_def new_connection_def
        send_jsonrpc_request_def Let_def sse_reader_thread_def reader_step_def the_text_def at_eof_def
        handle_line_def strip_def py_isspace_def startswith_def split_max1_item1_def
        example_loads_def route_message_def)

text \<open>
  C7. Under every schedule of the reader thread and the dispatch loop, the messages the
  loop has taken from the reverse-call queue, followed by those still in it, are the
  queue's first content followed by the reverse-call payloads of the reads the reader
  handled, in the order of the stream: the loop takes them in the order they were decoded,
  however many were put before one was taken. The reads handled are all of them when the
  reader is still running.
\<close>

theorem reverse_queue_fifo:
  "\<exists>n\<le>length (reads_of acts).
     snd (run_schedule loads env dumps post c acts)
       @ reverse_queue (fst (run_schedule loads env dumps post c acts))
     = reverse_queue c @ List.map_filter (reverse_frame loads) (take n (reads_of acts)) \<and>
     (thread (fst (run_schedule loads env dumps post c acts)) = Running
        \<longrightarrow> n = length (reads_of acts))"
proof -
  obtain c' got' where r: "run_schedule loads env dumps post c acts = (c', got')"
    by (cases "run_schedule loads env dumps post c acts") auto
  then have "foldl (sched_step loads env dumps post) (c, []) acts = (c', got')"
    by (simp add: run_schedule_def)
  from run_schedule_producer [OF this]
  have p: "sse_reader_thread loads c (reads_of acts) = c'\<lparr>reverse_queue := got' @ reverse_queue c'\<rparr>"
    by simp
  from reader_thread_queue [of "reads_of acts" loads c]
  show ?thesis unfolding r p by simp
qed

theorem reverse_queue_fifo_witness:
  \<open>thread (fst (run_schedule example_loads example_env (\<lambda>j. ''{}'') (\<lambda>r. PostStatus 202)
                  example_connection example_schedule)) = Running \<and>
   snd (run_schedule example_loads example_env (\<lambda>j. ''{}'') (\<lambda>r. PostStatus 202)
          example_connection example_schedule)
     @ reverse_queue (fst (run_schedule example_loads example_env (\<lambda>j. ''{}'') (\<lambda>r. PostStatus 202)
                             example_connection example_schedule))
     = reverse_queue example_connection
         @ List.map_filter (reverse_frame example_loads) (reads_of example_schedule) \<and>
   snd (run_schedule example_loads example_env (\<lambda>j. ''{}'') (\<lambda>r. PostStatus 202)
          example_connection example_schedule)
     = [JObj [(''reverse'', JObj [(''tool'', JStr ''demo_tool''),
                                 (''call_id'', JStr ''abc123''),
                                 (''input'', JObj [(''message'', JStr ''hi'')])])],
        JObj [(''reverse'', JObj [(''tool'', JStr ''second_tool''),
                                 (''call_id'', JStr ''abc124''),
                                 (''input'', JObj [])])]]\<close>
proof -
  let ?R = "run_schedule example_loads example_env (\<lambda>j. ''{}'') (\<lambda>r. PostStatus 202)
              example_connection example_schedule"
  have run: \<open>?R = (example_connection,
       [JObj [(''reverse'', JObj [(''tool'', JStr ''demo_tool''),
                                 (''call_id'', JStr ''abc123''),
                                 (''input'', JObj [(''message'', JStr ''hi'')])])],
        JObj [(''reverse'', JObj [(''tool'', JStr ''second_tool''),
                                 (''call_id'', JStr ''abc124''),
                                 (''input'', JObj [])])]])\<close>
    by (simp add: run_schedule_def example_schedule_def example_connection_def new_connection_def
          reader_step_def the_text_def at_eof_def handle_line_def strip_def py_isspace_def startswith_def
          split_max1_item1_def example_loads_def route_message_def listen_step_def
          send_tool_reply_def Let_def)
  have running: "thread (fst ?R) = Running"
    unfolding run by (simp add: example_connection_def new_connection_def)
  from reverse_queue_fifo [of example_schedule example_loads example_env "\<lambda>j. ''{}''"
         "\<lambda>r. PostStatus 202" example_connection]
  obtain n where
    eq: "snd ?R @ reverse_queue (fst ?R)
          = reverse_queue example_connection
              @ List.map_filter (reverse_frame example_loads) (take n (reads_of example_schedule))"
    and all: "thread (fst ?R) = Running \<longrightarrow> n = length (reads_of example_schedule)"
    by blast
  from all running have "n = length (reads_of example_schedule)" by simp
  with eq have fifo: "snd ?R @ reverse_queue (fst ?R)
          = reverse_queue example_connection
              @ List.map_filter (reverse_frame example_loads) (reads_of example_schedule)"
    by simp
  have got: "snd ?R = snd (example_connection,
       [JObj [(''reverse'', JObj [(''tool'', JStr ''demo_tool''),
                                 (''call_id'', JStr ''abc123''),
                                 (''input'', JObj [(''message'', JStr ''hi'')])])],
        JObj [(''reverse'', JObj [(''tool'', JStr ''second_tool''),
                                 (''call_id'', JStr ''abc124''),
                                 (''input'', JObj [])])]])"
    by (simp only: run)
  show ?thesis
    by (intro conjI running fifo) (simp only: got snd_conv)
qed



text \<open>
  C10, as amended. Let \<open>l\<close> be the data line of the first endpoint event, within the first
  ten lines. When its data lacks \<open>session_id=\<close>, \<open>connect_to_sse_endpoint\<close> returns \<open>None\<close>
  and closes the connection. When it returns a connection, the message endpoint is the
  data, it contains \<open>session_id=\<close>, and the session identifier is not empty and is the
  text after the first \<open>session_id=\<close> up to the next \<open>&\<close>, the next \<open>session_id=\<close> or the
  end of the data, whichever comes first.
\<close>

theorem endpoint_session_id:
  assumes "list_all is_line pre" and "length pre < 10"
    and "\<not> yields_endpoint (length pre) pre"
    and "event_type_after None (map line_text pre) = Some ''endpoint''"
    and "startswith (strip l) ''data:''"
  shows "(\<not> str_contains (strip (drop 5 (strip l))) ''session_id='' \<longrightarrow>
            returned (connect_to_sse_endpoint (GetResponse 200 (pre @ Line l # rest)) url auth) = None \<and>
            closed (connect_to_sse_endpoint (GetResponse 200 (pre @ Line l # rest)) url auth)) \<and>
         (\<forall>c. returned (connect_to_sse_endpoint (GetResponse 200 (pre @ Line l # rest)) url auth)
                = Some c \<longrightarrow>
            message_endpoint c = strip (drop 5 (strip l)) \<and>
            str_contains (message_endpoint c) ''session_id='' \<and>
            session_id c \<noteq> [] \<and>
            (\<exists>before seg tail.
               message_endpoint c = before @ ''session_id='' @ seg @ tail \<and>
               \<not> str_contains before ''session_id='' \<and>
               \<not> str_contains seg ''session_id='' \<and>
               (tail = [] \<or> startswith tail ''session_id='') \<and>
               session_id c = takeWhile (\<lambda>x. x \<noteq> CHR ''&'') seg))"
proof -
  let ?d = "strip (drop 5 (strip l))"
  let ?R = "connect_to_sse_endpoint (GetResponse 200 (pre @ Line l # rest)) url auth"
  from assms(1) have lines: "\<forall>r\<in>set pre. is_line r" by (simp add: list_all_iff)
  from assms(3) have none: "\<forall>j<length pre.
           \<not> (startswith (line_text (pre ! j)) ''data:'' \<and>
              event_type_after None (map line_text (take j pre)) = Some ''endpoint'')"
    by (simp add: yields_endpoint_def)
  note h = handshake_finds [OF lines assms(2) none assms(4) assms(5), of rest]
  show ?thesis
  proof (cases "str_contains ?d ''session_id=''")
    case False
    with h have "handshake 10 None None (pre @ Line l # rest) = Inr (Some ?d, None, rest)"
      by (simp add: Let_def)
    then have "returned ?R = None \<and> closed ?R"
      by (simp add: connect_to_sse_endpoint_def truthy_def)
    with False show ?thesis by simp
  next
    case True
    have ne: "''session_id='' \<noteq> []" by simp
    from split_item1_segment [OF True ne] obtain before seg tail where
      d: "?d = before @ ''session_id='' @ seg @ tail"
      and b: "\<not> str_contains before ''session_id=''"
      and s: "\<not> str_contains seg ''session_id=''"
      and t: "tail = [] \<or> startswith tail ''session_id=''"
      and sp: "split_item1 ''session_id='' ?d = Inr seg"
      by blast
    from h True sp have hs: "handshake 10 None None (pre @ Line l # rest)
        = Inr (Some ?d, Some (takeWhile (\<lambda>x. x \<noteq> CHR ''&'') seg), rest)"
      by (simp add: Let_def split_item0_char)
    have "\<forall>c. returned ?R = Some c \<longrightarrow>
            message_endpoint c = ?d \<and> session_id c \<noteq> [] \<and>
            session_id c = takeWhile (\<lambda>x. x \<noteq> CHR ''&'') seg"
      using hs
      by (auto simp: connect_to_sse_endpoint_def truthy_def new_connection_def split: if_splits)
    with True d b s t show ?thesis by metis
  qed
qed

theorem endpoint_session_id_witness:
  "list_all is_line [wire_line ''event: endpoint''] \<and>
   length [wire_line ''event: endpoint''] < 10 \<and>
   \<not> yields_endpoint (length [wire_line ''event: endpoint'']) [wire_line ''event: endpoint''] \<and>
   event_type_after None (map line_text [wire_line ''event: endpoint'']) = Some ''endpoint'' \<and>
   startswith (strip (''data: /messages/?session_id=5e1f&x=1'' @ [CHR 0x0A])) ''data:'' \<and>
   map_option message_endpoint
     (returned (connect_to_sse_endpoint
        (GetResponse 200 ([wire_line ''event: endpoint''] @ wire_line ''data: /messages/?session_id=5e1f&x=1'' # []))
        ''http://127.0.0.1:31173/sse'' ''Bearer token'')) = Some ''/messages/?session_id=5e1f&x=1'' \<and>
   map_option session_id
     (returned (connect_to_sse_endpoint
        (GetResponse 200 ([wire_line ''event: endpoint''] @ wire_line ''data: /messages/?session_id=5e1f&x=1'' # []))
        ''http://127.0.0.1:31173/sse'' ''Bearer token'')) = Some ''5e1f''"
proof -
  let ?R = "connect_to_sse_endpoint
        (GetResponse 200 ([wire_line ''event: endpoint''] @ wire_line ''data: /messages/?session_id=5e1f&x=1'' # []))
        ''http://127.0.0.1:31173/sse'' ''Bearer token''"
  have h1: "list_all is_line [wire_line ''event: endpoint'']" by (simp add: is_line_def)
  have h2: "length [wire_line ''event: endpoint''] < 10" by simp
  have h3: "\<not> yields_endpoint (length [wire_line ''event: endpoint'']) [wire_line ''event: endpoint'']"
    by (simp add: yields_endpoint_def line_text_def strip_def py_isspace_def startswith_def)
  have h4: "event_type_after None (map line_text [wire_line ''event: endpoint'']) = Some ''endpoint''"
    by (simp add: event_type_after_def line_text_def strip_def py_isspace_def startswith_def)
  have h5: "startswith (strip (''data: /messages/?session_id=5e1f&x=1'' @ [CHR 0x0A])) ''data:''"
    by (simp add: strip_def py_isspace_def startswith_def)
  have d: "strip (drop 5 (strip (''data: /messages/?session_id=5e1f&x=1'' @ [CHR 0x0A])))
             = ''/messages/?session_id=5e1f&x=1''"
    by (simp add: strip_def py_isspace_def)
  note t = endpoint_session_id [OF h1 h2 h3 h4 h5, of "[]" "''http://127.0.0.1:31173/sse''"
             "''Bearer token''", THEN conjunct2, unfolded d]
  have ev: "?R = \<lparr>returned = Some (new_connection ''5e1f'' ''/messages/?session_id=5e1f&x=1''
                       ''http://127.0.0.1:31173/sse'' ''Bearer token''),
                  closed = False, unread = []\<rparr>"
    by (simp add: connect_to_sse_endpoint_def eval_nat_numeral readline_def decode_strict_def
          strip_def py_isspace_def startswith_def split_max1_item1_def split_item1_def
          split_item0_def truthy_def Let_def)
  from t ev have me: "map_option message_endpoint (returned ?R) = Some ''/messages/?session_id=5e1f&x=1''"
    by simp
  from ev have sid: "map_option session_id (returned ?R) = Some ''5e1f''"
    by (simp add: new_connection_def)
  show ?thesis
    by (intro conjI h1 h2 h3 h4 h5 me sid)
qed

text \<open>
  C10, as stated, fails on data in which \<open>session_id=\<close> occurs again before the next
  \<open>&\<close>: the text between the first \<open>session_id=\<close> and the next \<open>&\<close> is
  \<open>abc;session_id=def\<close>, and the session identifier of the connection is \<open>abc;\<close>.
\<close>

theorem session_id_stops_at_second_marker_counterexample:
  "map_option message_endpoint
     (returned (connect_to_sse_endpoint
        (GetResponse 200 [wire_line ''event: endpoint'',
                          wire_line ''data: /messages/?session_id=abc;session_id=def&x=1''])
        ''http://127.0.0.1:31173/sse'' ''Bearer token''))
     = Some (''/messages/?'' @ ''session_id='' @ ''abc;session_id=def'' @ ''&x=1'') \<and>
   map_option session_id
     (returned (connect_to_sse_endpoint
        (GetResponse 200 [wire_line ''event: endpoint'',
                          wire_line ''data: /messages/?session_id=abc;session_id=def&x=1''])
        ''http://127.0.0.1:31173/sse'' ''Bearer token''))
     = Some ''abc;'' \<and>
   ''abc;'' \<noteq> ''abc;session_id=def''"
  by (simp add: connect_to_sse_endpoint_def eval_nat_numeral readline_def decode_strict_def
        strip_def py_isspace_def startswith_def split_max1_item1_def split_item1_def
        split_item0_def truthy_def Let_def new_connection_def)

end
